theory Spec2Isabelle
  imports Main "HOL-Library.Sublist" "HOL-Library.Multiset" "HOL-Library.Char_ord"
    "HOL-Library.List_Lexorder"
begin

section \<open>JavaScript strings\<close>

text \<open>
  A JavaScript string is modelled as a HOL \<open>string\<close>: a list of code units, here the
  code units below 256.  \<open>s.includes(p)\<close> is the contiguous-sublist test.
\<close>

definition js_includes :: "string \<Rightarrow> string \<Rightarrow> bool" where
  "js_includes s p = sublist p s"

text \<open>\<open>s.split(sep)\<close> for a one-character separator; the result is never empty.\<close>

fun split_on :: "char \<Rightarrow> string \<Rightarrow> string list" where
  "split_on sep [] = [[]]"
| "split_on sep (c # cs) =
     (if c = sep then [] # split_on sep cs
      else (case split_on sep cs of
              l # ls \<Rightarrow> (c # l) # ls
            | [] \<Rightarrow> [[c]]))"

definition newline :: char where
  "newline = CHR 0x0A"

text \<open>
  The white space of \<open>\s\<close> and of \<open>trim()\<close> among the code units below 256:
  tab, line feed, vertical tab, form feed, carriage return, space, no-break space.
\<close>

definition is_space :: "char \<Rightarrow> bool" where
  "is_space c = ((of_char c :: nat) \<in> {9, 10, 11, 12, 13, 32, 160})"

definition is_digit :: "char \<Rightarrow> bool" where
  "is_digit c = (48 \<le> (of_char c :: nat) \<and> (of_char c :: nat) \<le> 57)"

definition trim :: "string \<Rightarrow> string" where
  "trim s = rev (dropWhile is_space (rev (dropWhile is_space s)))"

text \<open>
  A string property that is present and not empty: what \<open>if (e.stdout)\<close> lets through.
\<close>

definition truthy :: "string option \<Rightarrow> string option" where
  "truthy v = (case v of None \<Rightarrow> None | Some str \<Rightarrow> if str \<noteq> [] then Some str else None)"

text \<open>Decimal rendering of a number inside a template literal.\<close>

definition digit_char :: "nat \<Rightarrow> char" where
  "digit_char d = char_of (48 + d)"

fun show_nat :: "nat \<Rightarrow> string" where
  "show_nat n = (if n < 10 then [digit_char n] else show_nat (n div 10) @ [digit_char (n mod 10)])"

declare show_nat.simps [simp del]

definition show_int :: "int \<Rightarrow> string" where
  "show_int i = (if i < 0 then CHR ''-'' # show_nat (nat (- i)) else show_nat (nat i))"

section \<open>The update executor (services/updater.ts)\<close>

text \<open>
  What a \<open>catch\<close> clause sees of a thrown value: the optional \<open>stdout\<close>,
  \<open>stderr\<close> and \<open>message\<close> properties (\<open>None\<close> is \<open>undefined\<close>).
\<close>

record js_error =
  stdout :: "string option"
  stderr :: "string option"
  message :: "string option"

record PackageJson =
  dependencies :: "(string \<rightharpoonup> string) option"
  devDependencies :: "(string \<rightharpoonup> string) option"

record UpdateResult =
  name :: string
  previousVersion :: string
  newVersion :: string
  success :: bool
  error :: "string option"

record UpdateOptions =
  exact :: bool
  force :: bool

subsection \<open>The shapes of the tools' JSON output\<close>

text \<open>
  One finding of \<open>npm audit --json\<close>, as \<open>runAudit\<close> casts it.  The severity is
  declared \<open>SeverityLevel\<close>, but it comes unchecked from the tool and the code itself
  tests it against the five known levels, so it stays a string here.  An item of
  \<open>via\<close> is the name of a dependency or an object with an optional title and url.
\<close>

datatype via_item = ViaName string | ViaObject "string option" "string option"

datatype fix_info = FixBool bool | FixTarget string string

record npm_vuln =
  severity :: string
  via :: "via_item list"
  range :: string
  fixAvailable :: fix_info

text \<open>
  \<open>JSON.parse(stdout)\<close> of the audit: it throws (\<open>NoJson\<close>), or the value has no
  truthy \<open>vulnerabilities\<close> property, or \<open>Object.entries\<close> of that property are the
  findings, in property order.
\<close>

datatype audit_json = NoJson | NoFindings | Findings "(string \<times> npm_vuln) list"

text \<open>One entry of \<open>npm outdated --json\<close>.\<close>

record outdated_info =
  current :: "string option"
  wanted :: string
  latest :: string
  location :: "string option"

text \<open>
  The environment of the program, over a state \<open>'w\<close> of the machine it runs on:
  \<open>readPackageJson\<close> is \<open>JSON.parse(readFileSync(package.json))\<close> (it throws, or gives
  the manifest, and changes nothing), \<open>execSync\<close> runs a command line (it throws, or
  gives the captured standard output, and leaves a new state), \<open>confirm\<close> is the prompt
  of the terminal, given its message and default (it throws when the user cancels).
  \<open>parseAudit\<close> and \<open>parseOutdated\<close> are \<open>JSON.parse\<close> seen through the types the
  code casts its result to; \<open>parseOutdated\<close> gives \<open>None\<close> when it throws and the
  entries of the value otherwise (none for \<open>null\<close>).  \<open>localeCompare\<close> is the
  collation of the host.
\<close>

record 'w sys =
  readPackageJson :: "'w \<Rightarrow> js_error + PackageJson"
  execSync :: "string \<Rightarrow> 'w \<Rightarrow> (js_error + string) \<times> 'w"
  confirm :: "string \<Rightarrow> bool \<Rightarrow> 'w \<Rightarrow> (js_error + bool) \<times> 'w"
  parseAudit :: "string \<Rightarrow> audit_json"
  parseOutdated :: "string \<Rightarrow> (string \<times> outdated_info) list option"
  localeCompare :: "string \<Rightarrow> string \<Rightarrow> int"

definition getCurrentVersion :: "'w sys \<Rightarrow> string \<Rightarrow> 'w \<Rightarrow> js_error + string" where
  "getCurrentVersion s nm w =
     (case readPackageJson s w of
        Inl e \<Rightarrow> Inl e
      | Inr pkg \<Rightarrow>
          Inr (case (case dependencies pkg of None \<Rightarrow> None | Some d \<Rightarrow> d nm) of
                 Some v \<Rightarrow> v
               | None \<Rightarrow>
                   (case (case devDependencies pkg of None \<Rightarrow> None | Some d \<Rightarrow> d nm) of
                      Some v \<Rightarrow> v
                    | None \<Rightarrow> ''unknown'')))"

text \<open>
  Whether a name is an own key of an optional object of the manifest: what
  \<open>new Set(Object.keys(pkgJson.devDependencies ?? {})).has(name)\<close> tests, and what
  \<open>name in (pkg.devDependencies ?? {})\<close> tests for every name that is not a
  property of \<open>Object.prototype\<close>.
\<close>

definition has_key :: "(string \<rightharpoonup> string) option \<Rightarrow> string \<Rightarrow> bool" where
  "has_key obj nm = (case obj of None \<Rightarrow> False | Some d \<Rightarrow> d nm \<noteq> None)"

definition isDevDep :: "'w sys \<Rightarrow> string \<Rightarrow> 'w \<Rightarrow> js_error + bool" where
  "isDevDep s nm w =
     (case readPackageJson s w of
        Inl e \<Rightarrow> Inl e
      | Inr pkg \<Rightarrow> Inr (has_key (devDependencies pkg) nm))"

text \<open>
  \<open>errLine.replace(/npm (ERR!|error)\s*/, "")\<close>: the leftmost occurrence of either
  marker is removed together with the white space that follows it.
\<close>

fun strip_npm_prefix :: "string \<Rightarrow> string" where
  "strip_npm_prefix [] = []"
| "strip_npm_prefix (c # cs) =
     (if prefix ''npm ERR!'' (c # cs) then dropWhile is_space (drop 8 (c # cs))
      else if prefix ''npm error'' (c # cs) then dropWhile is_space (drop 9 (c # cs))
      else c # strip_npm_prefix cs)"

definition extractErrorReason :: "string \<Rightarrow> string" where
  "extractErrorReason err =
     (if js_includes err ''ERESOLVE'' then ''Peer dependency conflict (use --force to bypass)''
      else if js_includes err ''404'' \<or> js_includes err ''Not Found''
        then ''Package not found in registry''
      else if js_includes err ''EACCES'' then ''Permission denied''
      else if js_includes err ''ETIMEDOUT'' \<or> js_includes err ''ENOTFOUND''
        then ''Network error''
      else (case find (\<lambda>line. js_includes line ''npm ERR!'' \<or> js_includes line ''npm error'')
                   (split_on newline err) of
              Some errLine \<Rightarrow> trim (strip_npm_prefix errLine)
            | None \<Rightarrow> ''Unknown error''))"

text \<open>The reason computed in the \<open>catch\<close> clause of \<open>updatePackage\<close>.\<close>

definition catch_reason :: "js_error \<Rightarrow> string" where
  "catch_reason execErr =
     (case truthy (stderr execErr) of
        Some e \<Rightarrow> extractErrorReason e
      | None \<Rightarrow>
          (case message execErr of
             Some m \<Rightarrow> hd (split_on newline m)
           | None \<Rightarrow> ''Unknown error''))"

definition install_cmd :: "string \<Rightarrow> bool \<Rightarrow> UpdateOptions \<Rightarrow> string" where
  "install_cmd nm dev options =
     trim (''npm install '' @ nm @ ''@latest ''
           @ (if dev then ''--save-dev'' else ''--save'') @ '' ''
           @ (if exact options then ''--save-exact'' else '''') @ '' ''
           @ (if force options then ''--legacy-peer-deps'' else ''''))"

definition update_failed :: "string \<Rightarrow> string \<Rightarrow> js_error \<Rightarrow> UpdateResult" where
  "update_failed nm prev execErr =
     \<lparr>UpdateResult.name = nm, previousVersion = prev, newVersion = prev,
      UpdateResult.success = False, UpdateResult.error = Some (catch_reason execErr)\<rparr>"

text \<open>
  The body of the \<open>try\<close> of \<open>updatePackage\<close>: what it returns, or what it throws.
\<close>

definition try_install ::
  "'w sys \<Rightarrow> string \<Rightarrow> string \<Rightarrow> UpdateOptions \<Rightarrow> 'w \<Rightarrow> (js_error + UpdateResult) \<times> 'w" where
  "try_install s nm prev options w =
     (case isDevDep s nm w of
        Inl e \<Rightarrow> (Inl e, w)
      | Inr dev \<Rightarrow>
          (case execSync s (install_cmd nm dev options) w of
             (Inl e, w') \<Rightarrow> (Inl e, w')
           | (Inr out, w') \<Rightarrow>
               (case getCurrentVersion s nm w' of
                  Inl e \<Rightarrow> (Inl e, w')
                | Inr new \<Rightarrow>
                    (Inr \<lparr>UpdateResult.name = nm, previousVersion = prev,
                          newVersion = new, UpdateResult.success = True,
                          UpdateResult.error = None\<rparr>, w'))))"

text \<open>
  The first read of the manifest is outside the \<open>try\<close>: when it throws, so does
  \<open>updatePackage\<close> (\<open>Inl\<close>).
\<close>

definition updatePackage ::
  "'w sys \<Rightarrow> string \<Rightarrow> UpdateOptions \<Rightarrow> 'w \<Rightarrow> (js_error + UpdateResult) \<times> 'w" where
  "updatePackage s nm options w =
     (case getCurrentVersion s nm w of
        Inl e \<Rightarrow> (Inl e, w)
      | Inr prev \<Rightarrow>
          (case try_install s nm prev options w of
             (Inr r, w') \<Rightarrow> (Inr r, w')
           | (Inl execErr, w') \<Rightarrow> (Inr (update_failed nm prev execErr), w')))"

text \<open>
  The loop of \<open>updateMultiplePackages\<close>, one package after the other on the state the
  previous one left.  The progress callback only redraws the spinner.
\<close>

fun updateMultiplePackages ::
  "'w sys \<Rightarrow> string list \<Rightarrow> UpdateOptions \<Rightarrow> 'w \<Rightarrow> (js_error + UpdateResult list) \<times> 'w" where
  "updateMultiplePackages s [] options w = (Inr [], w)"
| "updateMultiplePackages s (nm # nms) options w =
     (case updatePackage s nm options w of
        (Inl e, w') \<Rightarrow> (Inl e, w')
      | (Inr r, w') \<Rightarrow>
          (case updateMultiplePackages s nms options w' of
             (Inl e, w'') \<Rightarrow> (Inl e, w'')
           | (Inr rs, w'') \<Rightarrow> (Inr (r # rs), w'')))"

section \<open>The retry decision of the update command (commands/update.ts)\<close>

text \<open>
  What \<open>runUpdates\<close> does to its collaborators, in order: a call of
  \<open>updateMultiplePackages\<close> with its names and options, a call of
  \<open>displayUpdateResults\<close>, a call of \<open>confirm\<close> with its message and default.
\<close>

datatype event =
    Invoke "string list" UpdateOptions
  | Display "UpdateResult list"
  | Ask string bool

definition is_peerDepFailure :: "UpdateResult \<Rightarrow> bool" where
  "is_peerDepFailure r =
     (\<not> UpdateResult.success r \<and>
      (case UpdateResult.error r of
         None \<Rightarrow> False
       | Some e \<Rightarrow> js_includes e ''Peer dependency conflict''))"

definition retry_message :: "nat \<Rightarrow> string" where
  "retry_message n =
     show_nat n @ '' package'' @ (if n = 1 then '''' else ''s'')
     @ '' failed due to peer dependency conflicts. Retry with --force (--legacy-peer-deps)?''"

text \<open>
  The result is what \<open>runUpdates\<close> throws, if anything, and the events in order.  Only
  the first call of \<open>updateMultiplePackages\<close> is outside the \<open>try\<close>.
\<close>

definition runUpdates ::
  "'w sys \<Rightarrow> string list \<Rightarrow> UpdateOptions \<Rightarrow> 'w \<Rightarrow> (js_error option \<times> event list) \<times> 'w" where
  "runUpdates s names options w =
     (case updateMultiplePackages s names options w of
        (Inl e, w1) \<Rightarrow> ((Some e, [Invoke names options]), w1)
      | (Inr results, w1) \<Rightarrow>
          (let peerDepFailures = filter is_peerDepFailure results;
               shown = [Invoke names options, Display results];
               question = Ask (retry_message (length peerDepFailures)) True
           in if length peerDepFailures > 0 \<and> \<not> force options then
                (case confirm s (retry_message (length peerDepFailures)) True w1 of
                   (Inl cancelled, w2) \<Rightarrow> ((None, shown @ [question]), w2)
                 | (Inr retry, w2) \<Rightarrow>
                     (if retry then
                        (let retryNames = map UpdateResult.name peerDepFailures;
                             forced = options\<lparr>force := True\<rparr>
                         in case updateMultiplePackages s retryNames forced w2 of
                              (Inl e, w3) \<Rightarrow>
                                ((None, shown @ [question, Invoke retryNames forced]), w3)
                            | (Inr retryResults, w3) \<Rightarrow>
                                ((None, shown @ [question, Invoke retryNames forced,
                                                 Display retryResults]), w3))
                      else ((None, shown @ [question]), w2)))
              else ((None, shown), w1)))"

section \<open>Array.prototype.sort\<close>

text \<open>
  The comparator returns a number, or NaN (\<open>None\<close>), which \<open>sort\<close> takes for 0.
  \<open>sort\<close> is stable: for a comparator that orders the elements consistently, every
  implementation returns what stable insertion returns.  For any other comparator the
  language leaves the order to the implementation, and insertion is one of them.
\<close>

definition js_le :: "('a \<Rightarrow> 'a \<Rightarrow> int option) \<Rightarrow> 'a \<Rightarrow> 'a \<Rightarrow> bool" where
  "js_le cmp a b = (case cmp a b of None \<Rightarrow> True | Some v \<Rightarrow> v \<le> 0)"

fun js_insert :: "('a \<Rightarrow> 'a \<Rightarrow> int option) \<Rightarrow> 'a \<Rightarrow> 'a list \<Rightarrow> 'a list" where
  "js_insert cmp x [] = [x]"
| "js_insert cmp x (y # ys) =
     (if js_le cmp x y then x # y # ys else y # js_insert cmp x ys)"

definition js_sort :: "('a \<Rightarrow> 'a \<Rightarrow> int option) \<Rightarrow> 'a list \<Rightarrow> 'a list" where
  "js_sort cmp xs = foldr (js_insert cmp) xs []"

section \<open>The audit normalizer (services/audit.ts)\<close>

record Vulnerability =
  name :: string
  severity :: string
  title :: string
  url :: string
  range :: string
  fixAvailable :: fix_info

record Summary =
  critical :: nat
  high :: nat
  moderate :: nat
  low :: nat
  info :: nat

record AuditResult =
  vulnerabilities :: "Vulnerability list"
  summary :: Summary
  total :: nat

record AuditFixResult =
  success :: bool
  added :: nat
  removed :: nat
  changed :: nat
  fixedVulnerabilities :: int
  remainingVulnerabilities :: nat
  error :: "string option"

definition severityLevels :: "string list" where
  "severityLevels = [''critical'', ''high'', ''moderate'', ''low'', ''info'']"

definition emptySummary :: Summary where
  "emptySummary = \<lparr>critical = 0, high = 0, moderate = 0, low = 0, info = 0\<rparr>"

definition emptyAudit :: AuditResult where
  "emptyAudit = \<lparr>vulnerabilities = [], summary = emptySummary, total = 0\<rparr>"

text \<open>\<open>summary[v.severity]++\<close>, reached only for one of the five levels.\<close>

definition increment :: "string \<Rightarrow> Summary \<Rightarrow> Summary" where
  "increment sev sm =
     (if sev = ''critical'' then sm\<lparr>critical := critical sm + 1\<rparr>
      else if sev = ''high'' then sm\<lparr>high := high sm + 1\<rparr>
      else if sev = ''moderate'' then sm\<lparr>moderate := moderate sm + 1\<rparr>
      else if sev = ''low'' then sm\<lparr>low := low sm + 1\<rparr>
      else if sev = ''info'' then sm\<lparr>info := info sm + 1\<rparr>
      else sm)"

text \<open>\<open>typeof item === "object" && "title" in item\<close>\<close>

fun is_directVia :: "via_item \<Rightarrow> bool" where
  "is_directVia (ViaObject (Some t) u) = True"
| "is_directVia _ = False"

definition toVulnerability :: "string \<Rightarrow> npm_vuln \<Rightarrow> Vulnerability" where
  "toVulnerability nm v =
     (let directVia = find is_directVia (npm_vuln.via v)
      in \<lparr>Vulnerability.name = nm,
          Vulnerability.severity = npm_vuln.severity v,
          title = (case directVia of
                     Some (ViaObject (Some t) u) \<Rightarrow> t
                   | _ \<Rightarrow> ''Transitive vulnerability''),
          url = (case directVia of
                   Some (ViaObject t (Some u)) \<Rightarrow> u
                 | _ \<Rightarrow> ''''),
          Vulnerability.range = npm_vuln.range v,
          Vulnerability.fixAvailable = npm_vuln.fixAvailable v\<rparr>)"

text \<open>The \<open>for\<close> loop over the findings: push the entry, count its severity.\<close>

fun audit_loop ::
  "(string \<times> npm_vuln) list \<Rightarrow> Vulnerability list \<Rightarrow> Summary \<Rightarrow> Vulnerability list \<times> Summary" where
  "audit_loop [] vs sm = (vs, sm)"
| "audit_loop ((nm, v) # es) vs sm =
     audit_loop es (vs @ [toVulnerability nm v])
       (if npm_vuln.severity v \<in> set severityLevels
        then increment (npm_vuln.severity v) sm else sm)"

definition severityOrder :: "string \<Rightarrow> int option" where
  "severityOrder sev =
     (if sev = ''critical'' then Some 0
      else if sev = ''high'' then Some 1
      else if sev = ''moderate'' then Some 2
      else if sev = ''low'' then Some 3
      else if sev = ''info'' then Some 4
      else None)"

text \<open>
  \<open>severityOrder[a.severity] - severityOrder[b.severity]\<close>: NaN as soon as one of
  the two is not a key of the table.
\<close>

definition severity_cmp :: "Vulnerability \<Rightarrow> Vulnerability \<Rightarrow> int option" where
  "severity_cmp a b =
     (case severityOrder (Vulnerability.severity a) of
        None \<Rightarrow> None
      | Some x \<Rightarrow>
          (case severityOrder (Vulnerability.severity b) of
             None \<Rightarrow> None
           | Some y \<Rightarrow> Some (x - y)))"

text \<open>
  The standard output a failed or successful command leaves to parse: the returned
  string, or the truthy \<open>stdout\<close> of the thrown error.
\<close>

definition captured :: "js_error + string \<Rightarrow> string option" where
  "captured res =
     (case res of
        Inr out \<Rightarrow> Some out
      | Inl execErr \<Rightarrow> truthy (stdout execErr))"

definition audit_of :: "audit_json \<Rightarrow> AuditResult" where
  "audit_of data =
     (case data of
        Findings es \<Rightarrow>
          (case audit_loop es [] emptySummary of
             (vs, sm) \<Rightarrow>
               \<lparr>vulnerabilities = js_sort severity_cmp vs, summary = sm,
                total = length (js_sort severity_cmp vs)\<rparr>)
      | _ \<Rightarrow> emptyAudit)"

definition runAudit :: "'w sys \<Rightarrow> 'w \<Rightarrow> AuditResult \<times> 'w" where
  "runAudit s w =
     (case execSync s ''npm audit --json'' w of
        (res, w') \<Rightarrow>
          (case captured res of
             None \<Rightarrow> (emptyAudit, w')
           | Some out \<Rightarrow> (audit_of (parseAudit s out), w')))"

subsection \<open>The fix flow\<close>

text \<open>
  \<open>stdout.match(/word\s+(\d+)/)\<close>: at the leftmost place where the word is followed
  by white space and then digits, the digits.
\<close>

definition match_here :: "string \<Rightarrow> string \<Rightarrow> string option" where
  "match_here word str =
     (if prefix word str then
        (let rest = drop (length word) str;
             digits = takeWhile is_digit (dropWhile is_space rest)
         in if takeWhile is_space rest \<noteq> [] \<and> digits \<noteq> [] then Some digits else None)
      else None)"

fun match_stat :: "string \<Rightarrow> string \<Rightarrow> string option" where
  "match_stat word [] = match_here word []"
| "match_stat word (c # cs) =
     (case match_here word (c # cs) of
        Some digits \<Rightarrow> Some digits
      | None \<Rightarrow> match_stat word cs)"

text \<open>
  \<open>parseInt(digits, 10)\<close> on a string of decimal digits, as the exact number
  (JavaScript rounds it from 2^53 on).
\<close>

definition parseInt :: "string \<Rightarrow> nat" where
  "parseInt digits = foldl (\<lambda>n c. 10 * n + (of_char c - 48)) 0 digits"

definition stat :: "string \<Rightarrow> string \<Rightarrow> nat" where
  "stat word out = (case match_stat word out of Some digits \<Rightarrow> parseInt digits | None \<Rightarrow> 0)"

definition fix_failed :: "AuditResult \<Rightarrow> js_error \<Rightarrow> AuditFixResult" where
  "fix_failed beforeAudit execErr =
     (let err = (case stderr execErr of Some e \<Rightarrow> e | None \<Rightarrow> '''')
      in \<lparr>success = False, added = 0, removed = 0, changed = 0,
          fixedVulnerabilities = 0,
          remainingVulnerabilities = AuditResult.total beforeAudit,
          error = Some (if js_includes err ''ERESOLVE''
                        then ''Could not resolve dependencies. Try with --force.''
                        else ''npm audit fix failed'')\<rparr>)"

definition fix_report :: "'w sys \<Rightarrow> AuditResult \<Rightarrow> string \<Rightarrow> 'w \<Rightarrow> AuditFixResult \<times> 'w" where
  "fix_report s beforeAudit out w =
     (case runAudit s w of
        (afterAudit, w') \<Rightarrow>
          (\<lparr>success = True, added = stat ''added'' out, removed = stat ''removed'' out,
            changed = stat ''changed'' out,
            fixedVulnerabilities =
              max 0 (int (AuditResult.total beforeAudit) - int (AuditResult.total afterAudit)),
            remainingVulnerabilities = AuditResult.total afterAudit,
            error = None\<rparr>, w'))"

text \<open>
  Nothing inside the outer \<open>try\<close> of \<open>runAuditFix\<close> throws (\<open>runAudit\<close> catches
  everything itself), so its \<open>catch\<close> is no branch of the model.
\<close>

definition runAuditFix :: "'w sys \<Rightarrow> bool \<Rightarrow> 'w \<Rightarrow> AuditFixResult \<times> 'w" where
  "runAuditFix s forced w =
     (case runAudit s w of
        (beforeAudit, w1) \<Rightarrow>
          (case execSync s (''npm audit fix'' @ (if forced then '' --force'' else '''')) w1 of
             (Inr out, w2) \<Rightarrow> fix_report s beforeAudit out w2
           | (Inl execErr, w2) \<Rightarrow>
               (case captured (Inl execErr) of
                  Some out \<Rightarrow> fix_report s beforeAudit out w2
                | None \<Rightarrow> (fix_failed beforeAudit execErr, w2))))"

section \<open>The outdated normalizer (services/outdated.ts)\<close>

datatype dep_type = Dependencies | DevDependencies

record OutdatedPackage =
  name :: string
  current :: string
  wanted :: string
  latest :: string
  location :: string
  type :: dep_type

record OutdatedResult =
  packages :: "OutdatedPackage list"
  total :: nat

definition emptyOutdated :: OutdatedResult where
  "emptyOutdated = \<lparr>packages = [], total = 0\<rparr>"

definition toOutdatedPackage ::
  "(string \<Rightarrow> bool) \<Rightarrow> string \<Rightarrow> outdated_info \<Rightarrow> OutdatedPackage" where
  "toOutdatedPackage devDeps nm pkg =
     \<lparr>OutdatedPackage.name = nm,
      OutdatedPackage.current =
        (case outdated_info.current pkg of Some c \<Rightarrow> c | None \<Rightarrow> ''MISSING''),
      OutdatedPackage.wanted = outdated_info.wanted pkg,
      OutdatedPackage.latest = outdated_info.latest pkg,
      OutdatedPackage.location =
        (case outdated_info.location pkg of Some l \<Rightarrow> l | None \<Rightarrow> ''''),
      type = (if devDeps nm then DevDependencies else Dependencies)\<rparr>"

text \<open>The comparator of the sort: dependencies first, then by name.\<close>

definition outdated_cmp ::
  "(string \<Rightarrow> string \<Rightarrow> int) \<Rightarrow> OutdatedPackage \<Rightarrow> OutdatedPackage \<Rightarrow> int option" where
  "outdated_cmp lc a b =
     (if type a \<noteq> type b then (if type a = Dependencies then Some (- 1) else Some 1)
      else Some (lc (OutdatedPackage.name a) (OutdatedPackage.name b)))"

text \<open>
  The manifest is read first; \<open>devDeps\<close> is the set of the keys of its
  \<open>devDependencies\<close>, given by its membership test.  Whatever throws inside ends in
  the outer \<open>catch\<close>.
\<close>

definition getOutdated :: "'w sys \<Rightarrow> 'w \<Rightarrow> OutdatedResult \<times> 'w" where
  "getOutdated s w =
     (case readPackageJson s w of
        Inl e \<Rightarrow> (emptyOutdated, w)
      | Inr pkgJson \<Rightarrow>
          (let devDeps = has_key (devDependencies pkgJson)
           in case execSync s ''npm outdated --json'' w of
                (res, w') \<Rightarrow>
                  (case captured res of
                     None \<Rightarrow> (emptyOutdated, w')
                   | Some out \<Rightarrow>
                       (case parseOutdated s out of
                          None \<Rightarrow> (emptyOutdated, w')
                        | Some entries \<Rightarrow>
                            (if length entries = 0 then (emptyOutdated, w')
                             else
                               (let pkgs = js_sort (outdated_cmp (localeCompare s))
                                             (map (\<lambda>(nm, pkg). toOutdatedPackage devDeps nm pkg)
                                                entries)
                                in (\<lparr>packages = pkgs, total = length pkgs\<rparr>, w')))))))"

section \<open>The registry metadata fetcher (services/registry.ts)\<close>

record RegistryMetadata =
  name :: string
  deprecated :: "string option"
  lastPublishDate :: string
  lastPublishAge :: string
  isStale :: bool

text \<open>
  The body of a registry response, as the code types it: \<open>dist-tags\<close> with its optional
  \<open>latest\<close>, the \<open>time\<close> map, and for each version its optional deprecation message.
\<close>

record registry_doc =
  dist_tags :: "string option option"
  time :: "(string \<rightharpoonup> string) option"
  versions :: "(string \<rightharpoonup> string option) option"

text \<open>
  What one call of \<open>getPackageMetadata\<close> meets: \<open>fetch\<close> rejects, or there is a
  response with its \<open>ok\<close> flag and its body (\<open>None\<close> when \<open>json()\<close> rejects); and the
  two readings of the clock, in the staleness test and in \<open>formatAge\<close>.
\<close>

datatype fetch_result = Rejected | Response bool "registry_doc option"

record call_env =
  reply :: fetch_result
  now_isStale :: int
  now_formatAge :: int

definition STALE_THRESHOLD_MS :: int where
  "STALE_THRESHOLD_MS = 2 * 365 * 24 * 60 * 60 * 1000"

text \<open>
  \<open>getTime\<close> is \<open>new Date(dateStr).getTime()\<close>, \<open>None\<close> for NaN; with NaN every
  comparison fails and the last template is reached.  \<open>now\<close> is \<open>Date.now()\<close>.
  Times are integers of milliseconds and the arithmetic is exact; the floating-point
  division of JavaScript agrees with it except at the far end of the range of
  \<open>Date\<close>.
\<close>

definition formatAge :: "(string \<Rightarrow> int option) \<Rightarrow> int \<Rightarrow> string \<Rightarrow> string" where
  "formatAge getTime now dateStr =
     (case getTime dateStr of
        None \<Rightarrow> ''NaNy NaNm ago''
      | Some thn \<Rightarrow>
          (let diffMs = now - thn;
               days = diffMs div (1000 * 60 * 60 * 24)
           in if days < 30 then show_int days @ '' days ago''
              else
                (let months = days div 30
                 in if months < 12
                    then show_int months @ '' month'' @ (if months > 1 then ''s'' else '''') @ '' ago''
                    else
                      (let years = months div 12;
                           remainingMonths = months mod 12
                       in if remainingMonths = 0
                          then show_int years @ '' year'' @ (if years > 1 then ''s'' else '''') @ '' ago''
                          else show_int years @ ''y '' @ show_int remainingMonths @ ''m ago''))))"

definition metadata_of ::
  "(string \<Rightarrow> int option) \<Rightarrow> call_env \<Rightarrow> string \<Rightarrow> registry_doc \<Rightarrow> RegistryMetadata" where
  "metadata_of getTime env packageName data =
     (let latestVersion = (case dist_tags data of None \<Rightarrow> None | Some tags \<Rightarrow> tags);
          timeMap = (case time data of None \<Rightarrow> Map.empty | Some t \<Rightarrow> t);
          modified = (case timeMap ''modified'' of Some m \<Rightarrow> m | None \<Rightarrow> '''');
          lastPublishDate =
            (case truthy latestVersion of
               Some v \<Rightarrow> (case timeMap v of Some p \<Rightarrow> p | None \<Rightarrow> modified)
             | None \<Rightarrow> modified);
          isStale =
            (lastPublishDate \<noteq> '''' \<and>
             (case getTime lastPublishDate of
                None \<Rightarrow> False
              | Some thn \<Rightarrow> now_isStale env - thn > STALE_THRESHOLD_MS));
          deprecated =
            (case truthy latestVersion of
               None \<Rightarrow> None
             | Some v \<Rightarrow>
                 (case versions data of
                    None \<Rightarrow> None
                  | Some vs \<Rightarrow> (case vs v of None \<Rightarrow> None | Some d \<Rightarrow> truthy d)))
      in \<lparr>RegistryMetadata.name = packageName, deprecated = deprecated,
          lastPublishDate = lastPublishDate,
          lastPublishAge =
            (if lastPublishDate \<noteq> '''' then formatAge getTime (now_formatAge env) lastPublishDate
             else ''unknown''),
          isStale = isStale\<rparr>)"

definition getPackageMetadata ::
  "(string \<Rightarrow> int option) \<Rightarrow> call_env \<Rightarrow> string \<Rightarrow> RegistryMetadata option" where
  "getPackageMetadata getTime env packageName =
     (case reply env of
        Rejected \<Rightarrow> None
      | Response ok body \<Rightarrow>
          (if \<not> ok then None
           else (case body of
                   None \<Rightarrow> None
                 | Some data \<Rightarrow> Some (metadata_of getTime env packageName data))))"

definition batchSize :: nat where
  "batchSize = 10"

text \<open>
  The loop of \<open>getMultiplePackageMetadata\<close>; \<open>envs k\<close> is what the lookup of the
  \<open>k\<close>-th name of the input meets.
\<close>

function metadata_loop ::
  "(string \<Rightarrow> int option) \<Rightarrow> (nat \<Rightarrow> call_env) \<Rightarrow> string list \<Rightarrow> nat \<Rightarrow> RegistryMetadata list
     \<Rightarrow> RegistryMetadata list" where
  "metadata_loop getTime envs packageNames i results =
     (if i < length packageNames then
        (let batch = take batchSize (drop i packageNames);
             batchResults = map (\<lambda>(k, nm). getPackageMetadata getTime (envs k) nm)
                              (enumerate i batch)
         in metadata_loop getTime envs packageNames (i + batchSize)
              (results @ map the (filter (\<lambda>r. r \<noteq> None) batchResults)))
      else results)"
  by pat_completeness auto
termination
  by (relation "measure (\<lambda>(getTime, envs, packageNames, i, results). length packageNames - i)")
     (auto simp: batchSize_def)

declare metadata_loop.simps [simp del]

definition getMultiplePackageMetadata ::
  "(string \<Rightarrow> int option) \<Rightarrow> (nat \<Rightarrow> call_env) \<Rightarrow> string list \<Rightarrow> RegistryMetadata list" where
  "getMultiplePackageMetadata getTime envs packageNames =
     metadata_loop getTime envs packageNames 0 []"

section \<open>Notions used in the proofs\<close>

text \<open>
  The rank of a finding as a total function, and the number of findings of one
  severity.
\<close>

definition severity_rank :: "Vulnerability \<Rightarrow> int" where
  "severity_rank v = (case severityOrder (Vulnerability.severity v) of Some x \<Rightarrow> x | None \<Rightarrow> 5)"

definition count_sev :: "string \<Rightarrow> (string \<times> npm_vuln) list \<Rightarrow> nat" where
  "count_sev sev es = length (filter (\<lambda>(nm, v). npm_vuln.severity v = sev) es)"

section \<open>Sample environments\<close>

text \<open>
  Concrete environments on which the theorems below are run.  The state counts the
  commands executed so far; the manifest declares express and vitest.
\<close>

definition sample_manifest :: PackageJson where
  "sample_manifest =
     \<lparr>dependencies = Some [''express'' \<mapsto> ''4.18.0''],
      devDependencies = Some [''vitest'' \<mapsto> ''1.0.0'']\<rparr>"

definition compare_strings :: "string \<Rightarrow> string \<Rightarrow> int" where
  "compare_strings a b = (if a < b then - 1 else if a = b then 0 else 1)"

definition sample_sys ::
  "(string \<Rightarrow> nat \<Rightarrow> js_error + string) \<Rightarrow> (js_error + bool) \<Rightarrow> (string \<Rightarrow> audit_json)
     \<Rightarrow> (string \<Rightarrow> (string \<times> outdated_info) list option) \<Rightarrow> nat sys" where
  "sample_sys run answer pa po =
     \<lparr>readPackageJson = (\<lambda>w. Inr sample_manifest),
      execSync = (\<lambda>cmd w. (run cmd w, Suc w)),
      confirm = (\<lambda>msg dflt w. (answer, w)),
      parseAudit = pa, parseOutdated = po,
      localeCompare = compare_strings\<rparr>"

definition thrown :: "string option \<Rightarrow> string option \<Rightarrow> string option \<Rightarrow> js_error" where
  "thrown out err msg = \<lparr>stdout = out, stderr = err, message = msg\<rparr>"

text \<open>Every command fails with an error that has a message and no \<open>stderr\<close>.\<close>

definition no_stderr_sys :: "nat sys" where
  "no_stderr_sys =
     sample_sys (\<lambda>cmd w. Inl (thrown None None (Some ''not found''))) (Inr True)
       (\<lambda>out. NoJson) (\<lambda>out. None)"

text \<open>
  Every command fails with the given error unless it carries \<open>--legacy-peer-deps\<close>;
  the prompt gives the given answer.
\<close>

definition conflict_sys :: "js_error \<Rightarrow> (js_error + bool) \<Rightarrow> nat sys" where
  "conflict_sys e answer =
     sample_sys (\<lambda>cmd w. if js_includes cmd ''--legacy-peer-deps'' then Inr '''' else Inl e)
       answer (\<lambda>out. NoJson) (\<lambda>out. None)"

definition eresolve_error :: js_error where
  "eresolve_error =
     thrown None
       (Some (''npm error code ERESOLVE'' @ [newline] @ ''npm error ERESOLVE could not resolve''))
       (Some ''install failed'')"

definition phrase_error :: js_error where
  "phrase_error =
     thrown None (Some ''npm error Peer dependency conflict detected'') (Some ''install failed'')"

text \<open>
  Audits: the tool prints a label, which stands for the JSON text, and \<open>parseAudit\<close>
  gives the findings of the label.  \<open>audit_sys report fixed\<close> prints \<open>report w\<close> for
  an audit in state \<open>w\<close>, and \<open>npm audit fix\<close> ends as \<open>fixed\<close> says.
\<close>

definition finding :: "string \<Rightarrow> npm_vuln" where
  "finding sev =
     \<lparr>npm_vuln.severity = sev, via = [ViaName ''dep'', ViaObject (Some ''Issue'') None],
      npm_vuln.range = ''*'', npm_vuln.fixAvailable = FixBool True\<rparr>"

definition known_findings :: "(string \<times> npm_vuln) list" where
  "known_findings =
     [(''pkg-a'', finding ''low''), (''pkg-b'', finding ''critical''),
      (''pkg-c'', finding ''high''), (''pkg-d'', finding ''low'')]"

definition drift_findings :: "(string \<times> npm_vuln) list" where
  "drift_findings =
     [(''pkg-a'', finding ''low''), (''pkg-b'', finding ''unknown''),
      (''pkg-c'', finding ''critical'')]"

definition sample_parseAudit :: "string \<Rightarrow> audit_json" where
  "sample_parseAudit out =
     (if out = ''known'' then Findings known_findings
      else if out = ''drift'' then Findings drift_findings
      else if out = ''clean'' then Findings []
      else if out = ''other'' then NoFindings
      else NoJson)"

definition audit_sys :: "(nat \<Rightarrow> string) \<Rightarrow> (js_error + string) \<Rightarrow> nat sys" where
  "audit_sys report fixed =
     sample_sys (\<lambda>cmd w. if cmd = ''npm audit --json'' then Inr (report w) else fixed)
       (Inr True) sample_parseAudit (\<lambda>out. None)"

text \<open>
  The version-check tool exits with code 1 and prints a label, which stands for the
  JSON text; \<open>parseOutdated\<close> gives the entries of the label.
\<close>

definition sample_info :: "string option \<Rightarrow> outdated_info" where
  "sample_info cur =
     \<lparr>outdated_info.current = cur, outdated_info.wanted = ''1.1.0'',
      outdated_info.latest = ''2.0.0'', outdated_info.location = None\<rparr>"

definition sample_parseOutdated :: "string \<Rightarrow> (string \<times> outdated_info) list option" where
  "sample_parseOutdated out =
     (if out = ''outdated''
      then Some [(''vitest'', sample_info (Some ''1.0.0'')), (''lodash'', sample_info None),
                 (''express'', sample_info (Some ''4.18.0''))]
      else if out = ''{}'' then Some []
      else None)"

definition outdated_sys :: "nat sys" where
  "outdated_sys =
     sample_sys (\<lambda>cmd w. Inl (thrown (Some ''outdated'') None (Some ''Command failed'')))
       (Inr True) (\<lambda>out. NoJson) sample_parseOutdated"

text \<open>
  The registry: the clock of the repository's tests (2026-02-15), the dates they use
  with their times in milliseconds, a document whose latest version 2.0.0 was published
  on a given date, and lookups of which some fail.
\<close>

definition sample_getTime :: "string \<Rightarrow> int option" where
  "sample_getTime dateStr =
     (if dateStr = ''2026-02-10T00:00:00Z'' then Some 1770681600000
      else if dateStr = ''2026-02-15T00:00:00Z'' then Some 1771113600000
      else if dateStr = ''2025-11-15T00:00:00Z'' then Some 1763164800000
      else if dateStr = ''2026-01-10T00:00:00Z'' then Some 1768003200000
      else if dateStr = ''2024-02-15T00:00:00Z'' then Some 1707955200000
      else if dateStr = ''2024-02-16T00:00:00Z'' then Some 1708041600000
      else if dateStr = ''2023-08-15T00:00:00Z'' then Some 1692057600000
      else if dateStr = ''2025-02-15T00:00:00Z'' then Some 1739577600000
      else None)"

definition sample_now :: int where
  "sample_now = 1771113600000"


definition sample_doc :: "string \<Rightarrow> registry_doc" where
  "sample_doc published =
     \<lparr>dist_tags = Some (Some ''2.0.0''),
      time = Some [''2.0.0'' \<mapsto> published, ''modified'' \<mapsto> ''2026-02-10T00:00:00Z''],
      versions = Some [''2.0.0'' \<mapsto> None]\<rparr>"

definition sample_env :: "fetch_result \<Rightarrow> call_env" where
  "sample_env r = \<lparr>reply = r, now_isStale = sample_now, now_formatAge = sample_now\<rparr>"

definition flaky_envs :: "nat \<Rightarrow> call_env" where
  "flaky_envs k =
     sample_env (if k mod 3 = 1 then Rejected
                 else if k mod 5 = 0 then Response False None
                 else Response True (Some (sample_doc ''2026-02-10T00:00:00Z'')))"

section \<open>The update executor: failed updates\<close>

lemma split_on_not_Nil: "split_on sep str \<noteq> []"
  by (induction str) (auto split: list.splits)

lemma hd_split_on: "hd (split_on sep str) = takeWhile (\<lambda>c. c \<noteq> sep) str"
  using split_on_not_Nil by (induction str) (auto split: list.splits)

lemma try_install_success:
  "try_install s nm prev options w = (Inr r, w') \<Longrightarrow> UpdateResult.success r"
  by (auto simp: try_install_def split: sum.splits prod.splits)

lemma catch_reason_eq:
  "catch_reason execErr =
     (case truthy (stderr execErr) of
        Some e \<Rightarrow> extractErrorReason e
      | None \<Rightarrow>
          (case message execErr of
             Some m \<Rightarrow> takeWhile (\<lambda>c. c \<noteq> newline) m
           | None \<Rightarrow> ''Unknown error''))"
  by (simp add: catch_reason_def hd_split_on split: option.splits)

text \<open>
  The replacement removes the first marker of the line with the white space after it;
  what stands before the marker stays.
\<close>

lemma strip_npm_prefix_first:
  assumes "marker = ''npm ERR!'' \<or> marker = ''npm error''"
    and "\<forall>k < length before.
           \<not> prefix ''npm ERR!'' (drop k (before @ marker @ rest)) \<and>
           \<not> prefix ''npm error'' (drop k (before @ marker @ rest))"
  shows "strip_npm_prefix (before @ marker @ rest) = before @ dropWhile is_space rest"
  using assms(2)
proof (induction before)
  case Nil
  from assms(1) show ?case by auto
next
  case (Cons c cs)
  from Cons.prems have here: "\<not> prefix ''npm ERR!'' ((c # cs) @ marker @ rest) \<and>
           \<not> prefix ''npm error'' ((c # cs) @ marker @ rest)"
    by (metis drop0 length_greater_0_conv list.distinct(1))
  have "\<forall>k < length cs.
           \<not> prefix ''npm ERR!'' (drop k (cs @ marker @ rest)) \<and>
           \<not> prefix ''npm error'' (drop k (cs @ marker @ rest))"
  proof (intro allI impI)
    fix k assume "k < length cs"
    then have "Suc k < length (c # cs)" by simp
    with Cons.prems have "\<not> prefix ''npm ERR!'' (drop (Suc k) ((c # cs) @ marker @ rest)) \<and>
           \<not> prefix ''npm error'' (drop (Suc k) ((c # cs) @ marker @ rest))"
      by blast
    then show "\<not> prefix ''npm ERR!'' (drop k (cs @ marker @ rest)) \<and>
           \<not> prefix ''npm error'' (drop k (cs @ marker @ rest))"
      by simp
  qed
  with Cons.IH have "strip_npm_prefix (cs @ marker @ rest) = cs @ dropWhile is_space rest"
    by blast
  moreover from here [unfolded append_Cons] have "strip_npm_prefix (c # (cs @ marker @ rest)) =
             c # strip_npm_prefix (cs @ marker @ rest)"
    by (simp only: strip_npm_prefix.simps if_False)
  ultimately show ?case by (simp only: append_Cons)
qed

text \<open>The inputs of the repository's tests of \<open>extractErrorReason\<close>.\<close>

lemma extractErrorReason_examples:
  "extractErrorReason (''npm error code ERESOLVE'' @ [newline] @ ''npm error ERESOLVE could not resolve'') =
     ''Peer dependency conflict (use --force to bypass)''"
  "extractErrorReason ''npm error 404 Not Found - GET https://registry.npmjs.org/foo'' =
     ''Package not found in registry''"
  "extractErrorReason ''npm error Error: EACCES: permission denied'' = ''Permission denied''"
  "extractErrorReason ''npm error ETIMEDOUT'' = ''Network error''"
  "extractErrorReason ''npm error ENOTFOUND'' = ''Network error''"
  "extractErrorReason (''some output'' @ [newline] @ ''npm ERR! Could not install package'') =
     ''Could not install package''"
  "extractErrorReason (''some output'' @ [newline] @ ''npm error something went wrong'') =
     ''something went wrong''"
  "extractErrorReason ''random garbage'' = ''Unknown error''"
  "extractErrorReason '''' = ''Unknown error''"
  by code_simp+

lemma find_hd_filter:
  "find P xs = (if \<exists>x \<in> set xs. P x then Some (hd (filter P xs)) else None)"
  by (induction xs) auto

text \<open>
  C1, as amended.  Whenever the \<open>try\<close> of \<open>updatePackage\<close> throws, the result has
  \<open>success = false\<close> and \<open>newVersion\<close> equal to \<open>previousVersion\<close>, and every
  failed result arises so.  When the error carries a non-empty \<open>stderr\<close>, the reason
  is classified from it; when it carries no \<open>stderr\<close>, or an empty one, the reason is
  the first line of the error's message, or "Unknown error" without a message.  The
  classification goes in priority order: ERESOLVE; 404 or Not Found; EACCES; ETIMEDOUT or
  ENOTFOUND; the first line with an npm error marker, the marker removed and the line
  trimmed; "Unknown error".
\<close>

theorem updatePackage_failure_reason:
  "(\<forall>prev execErr w'.
      getCurrentVersion s nm w = Inr prev \<and>
      try_install s nm prev options w = (Inl execErr, w') \<longrightarrow>
      updatePackage s nm options w =
        (Inr \<lparr>UpdateResult.name = nm, previousVersion = prev, newVersion = prev,
              UpdateResult.success = False,
              UpdateResult.error =
                Some (case truthy (stderr execErr) of
                        Some e \<Rightarrow> extractErrorReason e
                      | None \<Rightarrow>
                          (case message execErr of
                             Some m \<Rightarrow> takeWhile (\<lambda>c. c \<noteq> newline) m
                           | None \<Rightarrow> ''Unknown error''))\<rparr>, w')) \<and>
   (\<forall>r w'.
      updatePackage s nm options w = (Inr r, w') \<and> \<not> UpdateResult.success r \<longrightarrow>
      newVersion r = previousVersion r \<and>
      (\<exists>execErr. try_install s nm (previousVersion r) options w = (Inl execErr, w'))) \<and>
   (\<forall>e. extractErrorReason e =
      (if js_includes e ''ERESOLVE'' then ''Peer dependency conflict (use --force to bypass)''
       else if js_includes e ''404'' \<or> js_includes e ''Not Found''
         then ''Package not found in registry''
       else if js_includes e ''EACCES'' then ''Permission denied''
       else if js_includes e ''ETIMEDOUT'' \<or> js_includes e ''ENOTFOUND''
         then ''Network error''
       else if \<exists>line \<in> set (split_on newline e).
                 js_includes line ''npm ERR!'' \<or> js_includes line ''npm error''
         then trim (strip_npm_prefix
                (hd (filter (\<lambda>line. js_includes line ''npm ERR!'' \<or> js_includes line ''npm error'')
                       (split_on newline e))))
       else ''Unknown error''))"
proof (intro conjI)
  show "\<forall>prev execErr w'.
      getCurrentVersion s nm w = Inr prev \<and>
      try_install s nm prev options w = (Inl execErr, w') \<longrightarrow>
      updatePackage s nm options w =
        (Inr \<lparr>UpdateResult.name = nm, previousVersion = prev, newVersion = prev,
              UpdateResult.success = False,
              UpdateResult.error =
                Some (case truthy (stderr execErr) of
                        Some e \<Rightarrow> extractErrorReason e
                      | None \<Rightarrow>
                          (case message execErr of
                             Some m \<Rightarrow> takeWhile (\<lambda>c. c \<noteq> newline) m
                           | None \<Rightarrow> ''Unknown error''))\<rparr>, w')"
    by (simp add: updatePackage_def update_failed_def catch_reason_eq)
next
  show "\<forall>r w'.
      updatePackage s nm options w = (Inr r, w') \<and> \<not> UpdateResult.success r \<longrightarrow>
      newVersion r = previousVersion r \<and>
      (\<exists>execErr. try_install s nm (previousVersion r) options w = (Inl execErr, w'))"
  proof (intro allI impI)
    fix r w'
    assume run: "updatePackage s nm options w = (Inr r, w') \<and> \<not> UpdateResult.success r"
    then obtain prev where prev: "getCurrentVersion s nm w = Inr prev"
      by (auto simp: updatePackage_def split: sum.splits)
    obtain res w1 where ti: "try_install s nm prev options w = (res, w1)"
      by (cases "try_install s nm prev options w")
    show "newVersion r = previousVersion r \<and>
        (\<exists>execErr. try_install s nm (previousVersion r) options w = (Inl execErr, w'))"
    proof (cases res)
      case (Inl execErr)
      with run prev ti have "r = update_failed nm prev execErr" and "w' = w1"
        by (auto simp: updatePackage_def)
      with ti Inl show ?thesis by (auto simp: update_failed_def)
    next
      case (Inr r1)
      with run prev ti have "r = r1" by (auto simp: updatePackage_def)
      moreover from Inr ti have "UpdateResult.success r1" by (auto dest: try_install_success)
      ultimately show ?thesis using run by simp
    qed
  qed
next
  show "\<forall>e. extractErrorReason e =
      (if js_includes e ''ERESOLVE'' then ''Peer dependency conflict (use --force to bypass)''
       else if js_includes e ''404'' \<or> js_includes e ''Not Found''
         then ''Package not found in registry''
       else if js_includes e ''EACCES'' then ''Permission denied''
       else if js_includes e ''ETIMEDOUT'' \<or> js_includes e ''ENOTFOUND''
         then ''Network error''
       else if \<exists>line \<in> set (split_on newline e).
                 js_includes line ''npm ERR!'' \<or> js_includes line ''npm error''
         then trim (strip_npm_prefix
                (hd (filter (\<lambda>line. js_includes line ''npm ERR!'' \<or> js_includes line ''npm error'')
                       (split_on newline e))))
       else ''Unknown error'')"
  proof
    fix e
    let ?P = "\<lambda>line. js_includes line ''npm ERR!'' \<or> js_includes line ''npm error''"
    have "(case find ?P (split_on newline e) of
             Some errLine \<Rightarrow> trim (strip_npm_prefix errLine)
           | None \<Rightarrow> ''Unknown error'') =
          (if \<exists>line \<in> set (split_on newline e). ?P line
           then trim (strip_npm_prefix (hd (filter ?P (split_on newline e))))
           else ''Unknown error'')"
      by (simp add: find_hd_filter)
    then show "extractErrorReason e =
      (if js_includes e ''ERESOLVE'' then ''Peer dependency conflict (use --force to bypass)''
       else if js_includes e ''404'' \<or> js_includes e ''Not Found''
         then ''Package not found in registry''
       else if js_includes e ''EACCES'' then ''Permission denied''
       else if js_includes e ''ETIMEDOUT'' \<or> js_includes e ''ENOTFOUND''
         then ''Network error''
       else if \<exists>line \<in> set (split_on newline e).
                 js_includes line ''npm ERR!'' \<or> js_includes line ''npm error''
         then trim (strip_npm_prefix
                (hd (filter (\<lambda>line. js_includes line ''npm ERR!'' \<or> js_includes line ''npm error'')
                       (split_on newline e))))
       else ''Unknown error'')"
      unfolding extractErrorReason_def by (simp only:)
  qed
qed

text \<open>
  The theorem at work: express fails to install with ERESOLVE on \<open>stderr\<close>.
\<close>

theorem updatePackage_failure_reason_witness:
  "getCurrentVersion (conflict_sys eresolve_error (Inr True)) ''express'' 0 = Inr ''4.18.0'' \<and>
   try_install (conflict_sys eresolve_error (Inr True)) ''express'' ''4.18.0''
     \<lparr>exact = True, force = False\<rparr> 0 = (Inl eresolve_error, 1) \<and>
   updatePackage (conflict_sys eresolve_error (Inr True)) ''express''
     \<lparr>exact = True, force = False\<rparr> 0 =
     (Inr \<lparr>UpdateResult.name = ''express'', previousVersion = ''4.18.0'',
           newVersion = ''4.18.0'', UpdateResult.success = False,
           UpdateResult.error = Some ''Peer dependency conflict (use --force to bypass)''\<rparr>, 1)"
proof -
  let ?s = "conflict_sys eresolve_error (Inr True)"
  let ?o = "\<lparr>exact = True, force = False\<rparr>"
  have prev: "getCurrentVersion ?s ''express'' 0 = Inr ''4.18.0''"
    by code_simp
  have failed: "try_install ?s ''express'' ''4.18.0'' ?o 0 = (Inl eresolve_error, 1)"
    by code_simp
  have reason:
    "(case truthy (stderr eresolve_error) of
        Some e \<Rightarrow> extractErrorReason e
      | None \<Rightarrow>
          (case message eresolve_error of
             Some m \<Rightarrow> takeWhile (\<lambda>c. c \<noteq> newline) m
           | None \<Rightarrow> ''Unknown error'')) =
     ''Peer dependency conflict (use --force to bypass)''"
    by code_simp
  note forward = updatePackage_failure_reason [of ?s "''express''" 0 ?o, THEN conjunct1,
      rule_format, OF conjI, OF prev failed]
  show ?thesis
    by (intro conjI) (rule prev, rule failed, rule forward [unfolded reason])
qed

text \<open>
  C1 as stated fails where the thrown error has no \<open>stderr\<close>: the reason is the
  message of the error, while the classification, of no text or of the message, gives
  "Unknown error".
\<close>

theorem updatePackage_reason_counterexample:
  "updatePackage no_stderr_sys ''nonexistent'' \<lparr>exact = True, force = False\<rparr> 0 =
     (Inr \<lparr>UpdateResult.name = ''nonexistent'', previousVersion = ''unknown'',
           newVersion = ''unknown'', UpdateResult.success = False,
           UpdateResult.error = Some ''not found''\<rparr>, 1) \<and>
   extractErrorReason '''' = ''Unknown error'' \<and>
   extractErrorReason ''not found'' = ''Unknown error''"
  by code_simp

section \<open>The update command: the retry decision\<close>

lemma classified_is_peerDepFailure:
  "\<not> UpdateResult.success r \<Longrightarrow>
   UpdateResult.error r = Some ''Peer dependency conflict (use --force to bypass)'' \<Longrightarrow>
   is_peerDepFailure r"
  unfolding is_peerDepFailure_def js_includes_def by (simp add: prefix_imp_sublist)

text \<open>
  C2, as amended.  After a batch update that returned \<open>results\<close>, the candidates for
  the retry are exactly the failed results whose reason contains the text
  "Peer dependency conflict"; every failed result with the peer-dependency
  classification is one of them.  If there is a candidate and force was not requested,
  one confirmation is asked, with default true; on the answer true the update operation
  is invoked a second time, on the names of the candidates, with force set, and any
  other outcome of the prompt, a cancellation included, ends the command without a retry
  and without an error.  If force was requested, or there is no candidate, nothing is
  asked and nothing is retried.
\<close>

theorem runUpdates_retry_decision:
  assumes first: "updateMultiplePackages s names options w = (Inr results, w1)"
  shows "let candidates = filter is_peerDepFailure results;
             msg = retry_message (length candidates);
             shown = [Invoke names options, Display results];
             forced = options\<lparr>force := True\<rparr>
         in (\<forall>r \<in> set results.
               (r \<in> set candidates \<longleftrightarrow>
                  \<not> UpdateResult.success r \<and>
                  (\<exists>e. UpdateResult.error r = Some e \<and>
                       js_includes e ''Peer dependency conflict'')) \<and>
               (\<not> UpdateResult.success r \<and>
                UpdateResult.error r = Some ''Peer dependency conflict (use --force to bypass)''
                  \<longrightarrow> r \<in> set candidates)) \<and>
            (candidates \<noteq> [] \<and> \<not> force options \<longrightarrow>
               (case confirm s msg True w1 of
                  (Inr True, w2) \<Rightarrow>
                    (case updateMultiplePackages s (map UpdateResult.name candidates) forced w2 of
                       (again, w3) \<Rightarrow>
                         runUpdates s names options w =
                           ((None, shown @ [Ask msg True,
                                            Invoke (map UpdateResult.name candidates) forced]
                                   @ (case again of
                                        Inl e \<Rightarrow> []
                                      | Inr retryResults \<Rightarrow> [Display retryResults])),
                            w3))
                | (declined, w2) \<Rightarrow>
                    runUpdates s names options w = ((None, shown @ [Ask msg True]), w2))) \<and>
            (candidates = [] \<or> force options \<longrightarrow>
               runUpdates s names options w = ((None, shown), w1))"
proof -
  let ?cs = "filter is_peerDepFailure results"
  let ?msg = "retry_message (length ?cs)"
  let ?forced = "options\<lparr>force := True\<rparr>"
  have a: "\<forall>r \<in> set results.
               (r \<in> set ?cs \<longleftrightarrow>
                  \<not> UpdateResult.success r \<and>
                  (\<exists>e. UpdateResult.error r = Some e \<and>
                       js_includes e ''Peer dependency conflict'')) \<and>
               (\<not> UpdateResult.success r \<and>
                UpdateResult.error r = Some ''Peer dependency conflict (use --force to bypass)''
                  \<longrightarrow> r \<in> set ?cs)"
    using classified_is_peerDepFailure
    by (auto simp: is_peerDepFailure_def split: option.splits)
  have b: "?cs \<noteq> [] \<and> \<not> force options \<longrightarrow>
               (case confirm s ?msg True w1 of
                  (Inr True, w2) \<Rightarrow>
                    (case updateMultiplePackages s (map UpdateResult.name ?cs) ?forced w2 of
                       (again, w3) \<Rightarrow>
                         runUpdates s names options w =
                           ((None, [Invoke names options, Display results]
                                   @ [Ask ?msg True, Invoke (map UpdateResult.name ?cs) ?forced]
                                   @ (case again of
                                        Inl e \<Rightarrow> []
                                      | Inr retryResults \<Rightarrow> [Display retryResults])),
                            w3))
                | (declined, w2) \<Rightarrow>
                    runUpdates s names options w =
                      ((None, [Invoke names options, Display results] @ [Ask ?msg True]), w2))"
    using first
    by (auto simp: runUpdates_def Let_def split: prod.splits sum.splits bool.splits)
  have c: "?cs = [] \<or> force options \<longrightarrow>
               runUpdates s names options w = ((None, [Invoke names options, Display results]), w1)"
    using first by (auto simp: runUpdates_def Let_def)
  from a b c show ?thesis unfolding Let_def by blast
qed

text \<open>
  The theorem at work: express and vitest both fail with ERESOLVE, the user accepts,
  and both are installed again with force.
\<close>

theorem runUpdates_retry_decision_witness:
  "updateMultiplePackages (conflict_sys eresolve_error (Inr True)) [''express'', ''vitest'']
     \<lparr>exact = True, force = False\<rparr> 0 =
     (Inr [\<lparr>UpdateResult.name = ''express'', previousVersion = ''4.18.0'',
            newVersion = ''4.18.0'', UpdateResult.success = False,
            UpdateResult.error = Some ''Peer dependency conflict (use --force to bypass)''\<rparr>,
           \<lparr>UpdateResult.name = ''vitest'', previousVersion = ''1.0.0'',
            newVersion = ''1.0.0'', UpdateResult.success = False,
            UpdateResult.error = Some ''Peer dependency conflict (use --force to bypass)''\<rparr>], 2) \<and>
   runUpdates (conflict_sys eresolve_error (Inr True)) [''express'', ''vitest'']
     \<lparr>exact = True, force = False\<rparr> 0 =
     ((None,
       [Invoke [''express'', ''vitest''] \<lparr>exact = True, force = False\<rparr>,
        Display
          [\<lparr>UpdateResult.name = ''express'', previousVersion = ''4.18.0'',
            newVersion = ''4.18.0'', UpdateResult.success = False,
            UpdateResult.error = Some ''Peer dependency conflict (use --force to bypass)''\<rparr>,
           \<lparr>UpdateResult.name = ''vitest'', previousVersion = ''1.0.0'',
            newVersion = ''1.0.0'', UpdateResult.success = False,
            UpdateResult.error = Some ''Peer dependency conflict (use --force to bypass)''\<rparr>],
        Ask ''2 packages failed due to peer dependency conflicts. Retry with --force (--legacy-peer-deps)?''
          True,
        Invoke [''express'', ''vitest''] \<lparr>exact = True, force = True\<rparr>,
        Display
          [\<lparr>UpdateResult.name = ''express'', previousVersion = ''4.18.0'',
            newVersion = ''4.18.0'', UpdateResult.success = True,
            UpdateResult.error = None\<rparr>,
           \<lparr>UpdateResult.name = ''vitest'', previousVersion = ''1.0.0'',
            newVersion = ''1.0.0'', UpdateResult.success = True,
            UpdateResult.error = None\<rparr>]]), 4)"
proof -
  let ?s = "conflict_sys eresolve_error (Inr True)"
  let ?o = "\<lparr>exact = True, force = False\<rparr>"
  let ?rs = "[\<lparr>UpdateResult.name = ''express'', previousVersion = ''4.18.0'',
            newVersion = ''4.18.0'', UpdateResult.success = False,
            UpdateResult.error = Some ''Peer dependency conflict (use --force to bypass)''\<rparr>,
           \<lparr>UpdateResult.name = ''vitest'', previousVersion = ''1.0.0'',
            newVersion = ''1.0.0'', UpdateResult.success = False,
            UpdateResult.error = Some ''Peer dependency conflict (use --force to bypass)''\<rparr>]"
  let ?rr = "[\<lparr>UpdateResult.name = ''express'', previousVersion = ''4.18.0'',
            newVersion = ''4.18.0'', UpdateResult.success = True,
            UpdateResult.error = None\<rparr>,
           \<lparr>UpdateResult.name = ''vitest'', previousVersion = ''1.0.0'',
            newVersion = ''1.0.0'', UpdateResult.success = True,
            UpdateResult.error = None\<rparr>]"
  have first: "updateMultiplePackages ?s [''express'', ''vitest''] ?o 0 = (Inr ?rs, 2)"
    by code_simp
  have cands: "filter is_peerDepFailure ?rs = ?rs"
    by code_simp
  have msg: "retry_message (length ?rs) =
     ''2 packages failed due to peer dependency conflicts. Retry with --force (--legacy-peer-deps)?''"
    by code_simp
  have names: "map UpdateResult.name ?rs = [''express'', ''vitest'']"
    by simp
  have forced: "?o\<lparr>force := True\<rparr> = \<lparr>exact = True, force = True\<rparr>"
    by simp
  have answer: "\<And>m. confirm ?s m True 2 = (Inr True, 2)"
    by (simp add: conflict_sys_def sample_sys_def)
  have again: "updateMultiplePackages ?s [''express'', ''vitest'']
                 \<lparr>exact = True, force = True\<rparr> 2 = (Inr ?rr, 4)"
    by code_simp
  have offered: "?rs \<noteq> [] \<and> \<not> force ?o"
    by simp
  note decision = runUpdates_retry_decision [OF first, unfolded Let_def cands msg names forced]
  note asked = decision [THEN conjunct2, THEN conjunct1, THEN mp, OF offered]
  from asked have "runUpdates ?s [''express'', ''vitest''] ?o 0 =
      ((None, [Invoke [''express'', ''vitest''] ?o, Display ?rs]
              @ [Ask ''2 packages failed due to peer dependency conflicts. Retry with --force (--legacy-peer-deps)?'' True,
                 Invoke [''express'', ''vitest''] \<lparr>exact = True, force = True\<rparr>]
              @ [Display ?rr]), 4)"
    by (simp add: answer again del: updateMultiplePackages.simps)
  with first show ?thesis by simp
qed

text \<open>
  C2 as stated fails on a failure whose reason contains the text without being the
  classification: the install of express fails with the line
  "npm error Peer dependency conflict detected" on \<open>stderr\<close>, the reason is that line
  without the marker, and express is offered for the retry and installed with force.
\<close>

theorem runUpdates_candidates_counterexample:
  "runUpdates (conflict_sys phrase_error (Inr True)) [''express'']
     \<lparr>exact = True, force = False\<rparr> 0 =
     ((None,
       [Invoke [''express''] \<lparr>exact = True, force = False\<rparr>,
        Display
          [\<lparr>UpdateResult.name = ''express'', previousVersion = ''4.18.0'',
            newVersion = ''4.18.0'', UpdateResult.success = False,
            UpdateResult.error = Some ''Peer dependency conflict detected''\<rparr>],
        Ask ''1 package failed due to peer dependency conflicts. Retry with --force (--legacy-peer-deps)?''
          True,
        Invoke [''express''] \<lparr>exact = True, force = True\<rparr>,
        Display
          [\<lparr>UpdateResult.name = ''express'', previousVersion = ''4.18.0'',
            newVersion = ''4.18.0'', UpdateResult.success = True,
            UpdateResult.error = None\<rparr>]]), 2) \<and>
   ''Peer dependency conflict detected'' \<noteq> ''Peer dependency conflict (use --force to bypass)''"
  by code_simp

section \<open>Array.prototype.sort: what insertion returns\<close>

lemma mset_js_insert: "mset (js_insert cmp x xs) = add_mset x (mset xs)"
  by (induction xs) auto

lemma mset_js_sort: "mset (js_sort cmp xs) = mset xs"
  by (induction xs) (auto simp: js_sort_def mset_js_insert)

lemma length_js_sort: "length (js_sort cmp xs) = length xs"
  using mset_js_sort [of cmp xs] by (metis size_mset)

lemma set_js_sort: "set (js_sort cmp xs) = set xs"
  using mset_js_sort [of cmp xs] by (metis set_mset_mset)

lemma js_sort_Cons: "js_sort cmp (x # xs) = js_insert cmp x (js_sort cmp xs)"
  by (simp add: js_sort_def)

lemma js_sort_Nil: "js_sort cmp [] = []"
  by (simp add: js_sort_def)

text \<open>A comparator that compares keys agrees with insertion by key.\<close>

lemma js_insert_key:
  assumes "\<And>y. y \<in> set (x # xs) \<Longrightarrow> js_le cmp x y \<longleftrightarrow> key x \<le> (key y :: int)"
  shows "js_insert cmp x xs = insort_key key x xs"
  using assms by (induction xs) auto

lemma js_sort_key:
  assumes "\<And>x y. x \<in> set xs \<Longrightarrow> y \<in> set xs \<Longrightarrow> js_le cmp x y \<longleftrightarrow> key x \<le> (key y :: int)"
  shows "js_sort cmp xs = sort_key key xs"
  using assms
proof (induction xs)
  case Nil
  then show ?case by (simp add: js_sort_def)
next
  case (Cons x xs)
  have "js_sort cmp xs = sort_key key xs" using Cons by simp
  moreover have "js_insert cmp x (sort_key key xs) = insort_key key x (sort_key key xs)"
    by (rule js_insert_key) (use Cons.prems in auto)
  ultimately show ?case by (simp add: js_sort_Cons)
qed

lemma sorted_wrt_js_insert:
  assumes total: "\<And>a b. js_le cmp a b \<or> js_le cmp b a"
    and trans: "\<And>a b c. js_le cmp a b \<Longrightarrow> js_le cmp b c \<Longrightarrow> js_le cmp a c"
    and "sorted_wrt (js_le cmp) xs"
  shows "sorted_wrt (js_le cmp) (js_insert cmp x xs)"
  using assms(3)
proof (induction xs)
  case Nil
  then show ?case by simp
next
  case (Cons y ys)
  show ?case
  proof (cases "js_le cmp x y")
    case True
    with Cons.prems trans show ?thesis by auto
  next
    case False
    with total have "js_le cmp y x" by blast
    with False Cons show ?thesis
      by (auto simp: set_mset_mset [symmetric] mset_js_insert simp del: set_mset_mset)
  qed
qed

lemma sorted_wrt_js_sort:
  assumes total: "\<And>a b. js_le cmp a b \<or> js_le cmp b a"
    and trans: "\<And>a b c. js_le cmp a b \<Longrightarrow> js_le cmp b c \<Longrightarrow> js_le cmp a c"
  shows "sorted_wrt (js_le cmp) (js_sort cmp xs)"
  by (induction xs) (auto simp: js_sort_def intro: sorted_wrt_js_insert [OF total trans])

section \<open>The audit normalizer: order and tallies\<close>

lemma severityOrder_known:
  "sev \<in> set severityLevels \<longleftrightarrow> (\<exists>x. severityOrder sev = Some x)"
  by (auto simp: severityLevels_def severityOrder_def)

lemma severityOrder_inj:
  "severityOrder a = Some x \<Longrightarrow> severityOrder b = Some x \<Longrightarrow> a = b"
  by (auto simp: severityOrder_def split: if_splits)

lemma js_le_severity:
  assumes "Vulnerability.severity a \<in> set severityLevels"
    and "Vulnerability.severity b \<in> set severityLevels"
  shows "js_le severity_cmp a b \<longleftrightarrow> severity_rank a \<le> severity_rank b"
  using assms
  by (auto simp: severityOrder_known js_le_def severity_cmp_def severity_rank_def)

lemma audit_loop_vulnerabilities:
  "fst (audit_loop es vs sm) = vs @ map (\<lambda>(nm, v). toVulnerability nm v) es"
  by (induction es vs sm rule: audit_loop.induct) auto

lemma severity_toVulnerability [simp]:
  "Vulnerability.severity (toVulnerability nm v) = npm_vuln.severity v"
  by (simp add: toVulnerability_def Let_def)

lemma name_toVulnerability [simp]:
  "Vulnerability.name (toVulnerability nm v) = nm"
  by (simp add: toVulnerability_def Let_def)

lemma audit_loop_summary:
  "snd (audit_loop es vs sm) =
     \<lparr>critical = critical sm + count_sev ''critical'' es,
      high = high sm + count_sev ''high'' es,
      moderate = moderate sm + count_sev ''moderate'' es,
      low = low sm + count_sev ''low'' es,
      info = info sm + count_sev ''info'' es\<rparr>"
  by (induction es vs sm rule: audit_loop.induct)
     (auto simp: count_sev_def increment_def severityLevels_def)

lemma runAudit_findings:
  assumes "execSync s ''npm audit --json'' w = (res, w')"
    and "captured res = Some out"
    and "parseAudit s out = Findings es"
  shows "runAudit s w =
           (\<lparr>vulnerabilities = js_sort severity_cmp (map (\<lambda>(nm, v). toVulnerability nm v) es),
             summary = snd (audit_loop es [] emptySummary),
             total = length es\<rparr>, w')"
proof -
  obtain vs sm where loop: "audit_loop es [] emptySummary = (vs, sm)"
    by (cases "audit_loop es [] emptySummary")
  with audit_loop_vulnerabilities [of es "[]" emptySummary]
  have "vs = map (\<lambda>(nm, v). toVulnerability nm v) es" by simp
  with loop assms show ?thesis
    by (simp add: runAudit_def audit_of_def length_js_sort)
qed

lemma runAudit_cases:
  "(\<exists>w'. runAudit s w = (emptyAudit, w')) \<or>
   (\<exists>res w' out es. execSync s ''npm audit --json'' w = (res, w') \<and> captured res = Some out \<and>
       parseAudit s out = Findings es)"
  by (auto simp: runAudit_def audit_of_def split: prod.splits option.splits audit_json.splits)

lemma sort_key_stable_on:
  assumes "\<And>x. x \<in> set xs \<Longrightarrow> P x \<longleftrightarrow> key x = k"
  shows "filter P (sort_key key xs) = filter P xs"
proof -
  have "filter P (sort_key key xs) = filter (\<lambda>y. key y = k) (sort_key key xs)"
    by (rule filter_cong) (use assms in auto)
  also have "\<dots> = filter (\<lambda>y. key y = k) xs" by (rule sort_key_stable)
  also have "\<dots> = filter P xs"
    by (rule filter_cong) (use assms in auto)
  finally show ?thesis .
qed

lemma known_sort_sorted_stable:
  assumes known: "\<And>v. v \<in> set vs \<Longrightarrow> Vulnerability.severity v \<in> set severityLevels"
  shows "sorted_wrt (\<lambda>a b. \<exists>x y. severityOrder (Vulnerability.severity a) = Some x \<and>
                              severityOrder (Vulnerability.severity b) = Some y \<and> x \<le> y)
           (js_sort severity_cmp vs)"
    and "filter (\<lambda>v. Vulnerability.severity v = sev) (js_sort severity_cmp vs) =
         filter (\<lambda>v. Vulnerability.severity v = sev) vs"
proof -
  have eq: "js_sort severity_cmp vs = sort_key severity_rank vs"
    by (rule js_sort_key) (use known js_le_severity in blast)
  have "sorted (map severity_rank (sort_key severity_rank vs))" by simp
  then have "sorted_wrt (\<lambda>a b. severity_rank a \<le> severity_rank b) (sort_key severity_rank vs)"
    by (simp add: sorted_map)
  then show "sorted_wrt (\<lambda>a b. \<exists>x y. severityOrder (Vulnerability.severity a) = Some x \<and>
                              severityOrder (Vulnerability.severity b) = Some y \<and> x \<le> y)
           (js_sort severity_cmp vs)"
    unfolding eq
  proof (rule sorted_wrt_mono_rel [rotated])
    fix a b
    assume "a \<in> set (sort_key severity_rank vs)" "b \<in> set (sort_key severity_rank vs)"
    assume "severity_rank a \<le> severity_rank b"
    moreover from \<open>a \<in> set (sort_key severity_rank vs)\<close> known
    obtain x where "severityOrder (Vulnerability.severity a) = Some x"
      by (auto simp: severityOrder_known)
    moreover from \<open>b \<in> set (sort_key severity_rank vs)\<close> known
    obtain y where "severityOrder (Vulnerability.severity b) = Some y"
      by (auto simp: severityOrder_known)
    ultimately show "\<exists>x y. severityOrder (Vulnerability.severity a) = Some x \<and>
                              severityOrder (Vulnerability.severity b) = Some y \<and> x \<le> y"
      by (simp add: severity_rank_def)
  qed
  show "filter (\<lambda>v. Vulnerability.severity v = sev) (js_sort severity_cmp vs) =
         filter (\<lambda>v. Vulnerability.severity v = sev) vs"
    unfolding eq
  proof (rule sort_key_stable_on)
    fix x assume "x \<in> set vs"
    with known obtain r where r: "severityOrder (Vulnerability.severity x) = Some r"
      by (auto simp: severityOrder_known)
    show "(Vulnerability.severity x = sev) =
          (severity_rank x = (case severityOrder sev of Some x \<Rightarrow> x | None \<Rightarrow> 5))"
    proof (cases "severityOrder sev")
      case None
      with r show ?thesis
        by (auto simp: severity_rank_def severityOrder_def split: if_splits)
    next
      case (Some q)
      with r severityOrder_inj show ?thesis
        by (auto simp: severity_rank_def)
    qed
  qed
qed

text \<open>
  C5, as amended.  When every finding that \<open>runAudit\<close> parses has one of the five
  known severities, the vulnerabilities it returns are sorted by severity rank ascending
  (critical = 0, high = 1, moderate = 2, low = 3, info = 4), and the entries of each
  severity are in their input order.
\<close>

theorem runAudit_sorted_stable:
  assumes "execSync s ''npm audit --json'' w = (res, w')"
    and "captured res = Some out"
    and "parseAudit s out = Findings es"
    and "\<forall>(nm, v) \<in> set es. npm_vuln.severity v \<in> set severityLevels"
  shows "map severityOrder severityLevels = [Some 0, Some 1, Some 2, Some 3, Some 4] \<and>
         sorted_wrt (\<lambda>a b. \<exists>x y. severityOrder (Vulnerability.severity a) = Some x \<and>
                              severityOrder (Vulnerability.severity b) = Some y \<and> x \<le> y)
           (vulnerabilities (fst (runAudit s w))) \<and>
         (\<forall>sev. filter (\<lambda>v. Vulnerability.severity v = sev) (vulnerabilities (fst (runAudit s w))) =
                filter (\<lambda>v. Vulnerability.severity v = sev)
                  (map (\<lambda>(nm, v). toVulnerability nm v) es))"
proof -
  let ?vs = "map (\<lambda>(nm, v). toVulnerability nm v) es"
  have known: "\<And>v. v \<in> set ?vs \<Longrightarrow> Vulnerability.severity v \<in> set severityLevels"
    using assms(4) by auto
  have run: "vulnerabilities (fst (runAudit s w)) = js_sort severity_cmp ?vs"
    using runAudit_findings [OF assms(1-3)] by simp
  have "map severityOrder severityLevels = [Some 0, Some 1, Some 2, Some 3, Some 4]"
    by (simp add: severityLevels_def severityOrder_def)
  with known_sort_sorted_stable [of ?vs, OF known] show ?thesis
    unfolding run by blast
qed

text \<open>
  The theorem at work on four findings: low, critical, high, low.
\<close>

theorem runAudit_sorted_stable_witness:
  "execSync (audit_sys (\<lambda>w. ''known'') (Inr '''')) ''npm audit --json'' 0 = (Inr ''known'', 1) \<and>
   captured (Inr ''known'') = Some ''known'' \<and>
   parseAudit (audit_sys (\<lambda>w. ''known'') (Inr '''')) ''known'' = Findings known_findings \<and>
   map (npm_vuln.severity \<circ> snd) known_findings = [''low'', ''critical'', ''high'', ''low''] \<and>
   map Vulnerability.name
     (vulnerabilities (fst (runAudit (audit_sys (\<lambda>w. ''known'') (Inr '''')) 0))) =
     [''pkg-b'', ''pkg-c'', ''pkg-a'', ''pkg-d''] \<and>
   filter (\<lambda>v. Vulnerability.severity v = ''low'')
     (vulnerabilities (fst (runAudit (audit_sys (\<lambda>w. ''known'') (Inr '''')) 0))) =
     filter (\<lambda>v. Vulnerability.severity v = ''low'')
       (map (\<lambda>(nm, v). toVulnerability nm v) known_findings)"
proof -
  let ?s = "audit_sys (\<lambda>w. ''known'') (Inr '''')"
  have h1: "execSync ?s ''npm audit --json'' 0 = (Inr ''known'', 1)"
    by (simp add: audit_sys_def sample_sys_def)
  have h2: "captured (Inr ''known'') = Some ''known''"
    by (simp add: captured_def)
  have h3: "parseAudit ?s ''known'' = Findings known_findings"
    by (simp add: audit_sys_def sample_sys_def sample_parseAudit_def)
  have h4: "\<forall>(nm, v) \<in> set known_findings. npm_vuln.severity v \<in> set severityLevels"
    by (simp add: known_findings_def finding_def severityLevels_def)
  have order: "map Vulnerability.name (vulnerabilities (fst (runAudit ?s 0))) =
     [''pkg-b'', ''pkg-c'', ''pkg-a'', ''pkg-d'']"
    by code_simp
  have sevs: "map (npm_vuln.severity \<circ> snd) known_findings = [''low'', ''critical'', ''high'', ''low'']"
    by (simp add: known_findings_def finding_def)
  from runAudit_sorted_stable [OF h1 h2 h3 h4] h1 h2 h3 sevs order show ?thesis
    by blast
qed

text \<open>
  C5 as stated fails on a finding whose severity is none of the five: its comparisons
  give NaN, and the findings low, unknown, critical stay in that order, low (rank 3)
  before critical (rank 0).  V8 leaves this array as it is as well: each element compares
  as equal to its neighbour, so the whole array is one ascending run.
\<close>

theorem runAudit_sorted_counterexample:
  "map Vulnerability.severity
     (vulnerabilities (fst (runAudit (audit_sys (\<lambda>w. ''drift'') (Inr '''')) 0))) =
     [''low'', ''unknown'', ''critical''] \<and>
   severityOrder ''low'' = Some 3 \<and> severityOrder ''critical'' = Some 0"
  by code_simp

lemma length_filter_js_sort:
  "length (filter P (js_sort cmp xs)) = length (filter P xs)"
proof -
  have "mset (filter P (js_sort cmp xs)) = mset (filter P xs)"
    by (simp only: mset_filter mset_js_sort)
  then show ?thesis by (metis size_mset)
qed

lemma count_sev_filter:
  "count_sev sev es =
     length (filter (\<lambda>v. Vulnerability.severity v = sev) (map (\<lambda>(nm, v). toVulnerability nm v) es))"
  by (induction es) (auto simp: count_sev_def)

lemma length_filter_known:
  "length (filter (\<lambda>v. Vulnerability.severity v \<in> set severityLevels) vs) =
     length (filter (\<lambda>v. Vulnerability.severity v = ''critical'') vs) +
     length (filter (\<lambda>v. Vulnerability.severity v = ''high'') vs) +
     length (filter (\<lambda>v. Vulnerability.severity v = ''moderate'') vs) +
     length (filter (\<lambda>v. Vulnerability.severity v = ''low'') vs) +
     length (filter (\<lambda>v. Vulnerability.severity v = ''info'') vs)"
  by (induction vs) (auto simp: severityLevels_def)

lemma runAudit_counts:
  "critical (summary (fst (runAudit s w))) =
     length (filter (\<lambda>v. Vulnerability.severity v = ''critical'') (vulnerabilities (fst (runAudit s w)))) \<and>
   high (summary (fst (runAudit s w))) =
     length (filter (\<lambda>v. Vulnerability.severity v = ''high'') (vulnerabilities (fst (runAudit s w)))) \<and>
   moderate (summary (fst (runAudit s w))) =
     length (filter (\<lambda>v. Vulnerability.severity v = ''moderate'') (vulnerabilities (fst (runAudit s w)))) \<and>
   low (summary (fst (runAudit s w))) =
     length (filter (\<lambda>v. Vulnerability.severity v = ''low'') (vulnerabilities (fst (runAudit s w)))) \<and>
   info (summary (fst (runAudit s w))) =
     length (filter (\<lambda>v. Vulnerability.severity v = ''info'') (vulnerabilities (fst (runAudit s w)))) \<and>
   AuditResult.total (fst (runAudit s w)) = length (vulnerabilities (fst (runAudit s w)))"
  using runAudit_cases [of s w]
proof (elim disjE exE conjE)
  fix w' assume "runAudit s w = (emptyAudit, w')"
  then show ?thesis by (simp add: emptyAudit_def emptySummary_def)
next
  fix res w' out es
  assume "execSync s ''npm audit --json'' w = (res, w')" "captured res = Some out"
    "parseAudit s out = Findings es"
  from runAudit_findings [OF this] show ?thesis
    by (simp add: audit_loop_summary emptySummary_def length_filter_js_sort length_js_sort
        count_sev_filter)
qed

text \<open>
  C6.  In every result of \<open>runAudit\<close>, \<open>total\<close> is the length of the list of
  vulnerabilities; each count of the summary is the number of entries of the list with
  that severity, so the counts add up to the number of entries with a known severity,
  which is at most \<open>total\<close>; and when the output of the tool parses to findings, the
  list holds every one of them, whatever its severity.
\<close>

theorem runAudit_invariant:
  "let r = fst (runAudit s w);
       tally = critical (summary r) + high (summary r) + moderate (summary r)
               + low (summary r) + info (summary r)
   in AuditResult.total r = length (vulnerabilities r) \<and>
      critical (summary r) =
        length (filter (\<lambda>v. Vulnerability.severity v = ''critical'') (vulnerabilities r)) \<and>
      high (summary r) =
        length (filter (\<lambda>v. Vulnerability.severity v = ''high'') (vulnerabilities r)) \<and>
      moderate (summary r) =
        length (filter (\<lambda>v. Vulnerability.severity v = ''moderate'') (vulnerabilities r)) \<and>
      low (summary r) =
        length (filter (\<lambda>v. Vulnerability.severity v = ''low'') (vulnerabilities r)) \<and>
      info (summary r) =
        length (filter (\<lambda>v. Vulnerability.severity v = ''info'') (vulnerabilities r)) \<and>
      tally = length (filter (\<lambda>v. Vulnerability.severity v \<in> set severityLevels)
                        (vulnerabilities r)) \<and>
      tally \<le> AuditResult.total r \<and>
      (\<forall>res w' out es.
         execSync s ''npm audit --json'' w = (res, w') \<and> captured res = Some out \<and>
         parseAudit s out = Findings es \<longrightarrow>
         mset (vulnerabilities r) = mset (map (\<lambda>(nm, v). toVulnerability nm v) es))"
proof -
  let ?r = "fst (runAudit s w)"
  note counts = runAudit_counts [of s w]
  have tally: "critical (summary ?r) + high (summary ?r) + moderate (summary ?r)
               + low (summary ?r) + info (summary ?r) =
        length (filter (\<lambda>v. Vulnerability.severity v \<in> set severityLevels) (vulnerabilities ?r))"
    using counts by (simp add: length_filter_known)
  have le: "length (filter (\<lambda>v. Vulnerability.severity v \<in> set severityLevels) (vulnerabilities ?r))
              \<le> AuditResult.total ?r"
    using counts by simp
  have kept: "\<forall>res w' out es.
         execSync s ''npm audit --json'' w = (res, w') \<and> captured res = Some out \<and>
         parseAudit s out = Findings es \<longrightarrow>
         mset (vulnerabilities ?r) = mset (map (\<lambda>(nm, v). toVulnerability nm v) es)"
  proof (intro allI impI, elim conjE)
    fix res w' out es
    assume "execSync s ''npm audit --json'' w = (res, w')" "captured res = Some out"
      "parseAudit s out = Findings es"
    from runAudit_findings [OF this]
    show "mset (vulnerabilities ?r) = mset (map (\<lambda>(nm, v). toVulnerability nm v) es)"
      by (simp add: mset_js_sort)
  qed
  from counts tally le kept show ?thesis
    unfolding Let_def by simp
qed

text \<open>
  The theorem at work: of the findings low, unknown, critical all three are in the
  list, and two are counted.
\<close>

theorem runAudit_invariant_witness:
  "execSync (audit_sys (\<lambda>w. ''drift'') (Inr '''')) ''npm audit --json'' 0 = (Inr ''drift'', 1) \<and>
   captured (Inr ''drift'') = Some ''drift'' \<and>
   parseAudit (audit_sys (\<lambda>w. ''drift'') (Inr '''')) ''drift'' = Findings drift_findings \<and>
   mset (vulnerabilities (fst (runAudit (audit_sys (\<lambda>w. ''drift'') (Inr '''')) 0))) =
     mset (map (\<lambda>(nm, v). toVulnerability nm v) drift_findings) \<and>
   map Vulnerability.severity
     (vulnerabilities (fst (runAudit (audit_sys (\<lambda>w. ''drift'') (Inr '''')) 0))) =
     [''low'', ''unknown'', ''critical''] \<and>
   summary (fst (runAudit (audit_sys (\<lambda>w. ''drift'') (Inr '''')) 0)) =
     \<lparr>critical = 1, high = 0, moderate = 0, low = 1, info = 0\<rparr> \<and>
   AuditResult.total (fst (runAudit (audit_sys (\<lambda>w. ''drift'') (Inr '''')) 0)) = 3"
proof -
  let ?s = "audit_sys (\<lambda>w. ''drift'') (Inr '''')"
  have h1: "execSync ?s ''npm audit --json'' 0 = (Inr ''drift'', 1)"
    by (simp add: audit_sys_def sample_sys_def)
  have h2: "captured (Inr ''drift'') = Some ''drift''"
    by (simp add: captured_def)
  have h3: "parseAudit ?s ''drift'' = Findings drift_findings"
    by (simp add: audit_sys_def sample_sys_def sample_parseAudit_def)
  have kept: "mset (vulnerabilities (fst (runAudit ?s 0))) =
     mset (map (\<lambda>(nm, v). toVulnerability nm v) drift_findings)"
    using runAudit_invariant [of ?s 0] h1 h2 h3 unfolding Let_def by blast
  have sevs: "map Vulnerability.severity (vulnerabilities (fst (runAudit ?s 0))) =
     [''low'', ''unknown'', ''critical'']"
    by code_simp
  have sm: "summary (fst (runAudit ?s 0)) =
     \<lparr>critical = 1, high = 0, moderate = 0, low = 1, info = 0\<rparr>"
    by code_simp
  have tot: "AuditResult.total (fst (runAudit ?s 0)) = 3"
    by code_simp
  from h1 h2 h3 kept sevs sm tot show ?thesis by blast
qed

section \<open>The fix flow: failure and counts\<close>

lemma forced_hint:
  "js_includes ''Could not resolve dependencies. Try with --force.'' ''--force''"
  "\<not> js_includes ''npm audit fix failed'' ''--force''"
  by code_simp+

text \<open>
  C3.  If the remediation command throws and the error has no truthy \<open>stdout\<close>,
  \<open>runAuditFix\<close> reports failure, with the total of the audit run before as the
  remaining count, and with an error message; the message contains \<open>--force\<close> exactly
  when the \<open>stderr\<close> of the error contains ERESOLVE.
\<close>

theorem runAuditFix_no_output:
  assumes "runAudit s w = (before, w1)"
    and "execSync s (''npm audit fix'' @ (if forced then '' --force'' else '''')) w1 = (Inl execErr, w2)"
    and "truthy (stdout execErr) = None"
  shows "\<exists>r msg. runAuditFix s forced w = (r, w2) \<and>
           \<not> AuditFixResult.success r \<and>
           remainingVulnerabilities r = AuditResult.total before \<and>
           AuditFixResult.error r = Some msg \<and>
           (js_includes msg ''--force'' \<longleftrightarrow>
              js_includes (case stderr execErr of Some e \<Rightarrow> e | None \<Rightarrow> '''') ''ERESOLVE'') \<and>
           msg = (if js_includes (case stderr execErr of Some e \<Rightarrow> e | None \<Rightarrow> '''') ''ERESOLVE''
                  then ''Could not resolve dependencies. Try with --force.''
                  else ''npm audit fix failed'')"
  using assms forced_hint
  by (simp add: runAuditFix_def captured_def fix_failed_def Let_def)

text \<open>
  The theorem at work: four findings before, and a fix that fails with ERESOLVE.
\<close>

theorem runAuditFix_no_output_witness:
  "runAudit (audit_sys (\<lambda>w. if w = 0 then ''known'' else ''clean'')
               (Inl (thrown None (Some ''npm ERR! ERESOLVE could not resolve'') (Some ''failed'')))) 0 =
     (fst (runAudit (audit_sys (\<lambda>w. ''known'') (Inr '''')) 0), 1) \<and>
   truthy (stdout (thrown None (Some ''npm ERR! ERESOLVE could not resolve'') (Some ''failed''))) = None \<and>
   runAuditFix (audit_sys (\<lambda>w. if w = 0 then ''known'' else ''clean'')
               (Inl (thrown None (Some ''npm ERR! ERESOLVE could not resolve'') (Some ''failed''))))
      False 0 =
     (\<lparr>AuditFixResult.success = False, added = 0, removed = 0, changed = 0,
       fixedVulnerabilities = 0, remainingVulnerabilities = 4,
       AuditFixResult.error = Some ''Could not resolve dependencies. Try with --force.''\<rparr>, 2)"
proof -
  let ?e = "thrown None (Some ''npm ERR! ERESOLVE could not resolve'') (Some ''failed'')"
  let ?s = "audit_sys (\<lambda>w. if w = 0 then ''known'' else ''clean'') (Inl ?e)"
  let ?b = "fst (runAudit (audit_sys (\<lambda>w. ''known'') (Inr '''')) 0)"
  have h1: "runAudit ?s 0 = (?b, 1)"
    by code_simp
  have h2: "execSync ?s (''npm audit fix'' @ (if False then '' --force'' else '''')) 1 = (Inl ?e, 2)"
    by (simp add: audit_sys_def sample_sys_def)
  have h3: "truthy (stdout ?e) = None"
    by (simp add: thrown_def truthy_def)
  have tot: "AuditResult.total ?b = 4"
    by code_simp
  have err: "js_includes (case stderr ?e of Some e \<Rightarrow> e | None \<Rightarrow> '''') ''ERESOLVE''"
    by code_simp
  from runAuditFix_no_output [OF h1 h2 h3]
  obtain r msg where r: "runAuditFix ?s False 0 = (r, 2)" "\<not> AuditFixResult.success r"
    "remainingVulnerabilities r = AuditResult.total ?b" "AuditFixResult.error r = Some msg"
    "msg = (if js_includes (case stderr ?e of Some e \<Rightarrow> e | None \<Rightarrow> '''') ''ERESOLVE''
                  then ''Could not resolve dependencies. Try with --force.''
                  else ''npm audit fix failed'')"
    by blast
  have rest: "added r = 0 \<and> removed r = 0 \<and> changed r = 0 \<and> fixedVulnerabilities r = 0 \<and>
     AuditFixResult.more r = ()"
    using r(1) h1 h2 h3
    by (auto simp: runAuditFix_def captured_def fix_failed_def)
  from r rest tot err have "r = \<lparr>AuditFixResult.success = False, added = 0, removed = 0, changed = 0,
       fixedVulnerabilities = 0, remainingVulnerabilities = 4,
       AuditFixResult.error = Some ''Could not resolve dependencies. Try with --force.''\<rparr>"
    by (cases r) simp
  with r(1) h1 h3 show ?thesis by simp
qed

text \<open>
  C4.  Every successful result of \<open>runAuditFix\<close> comes from an audit before, output
  captured from the fix, and an audit after; \<open>fixedVulnerabilities\<close> is
  \<open>max(0, before.total - after.total)\<close>, never negative and 0 when the audit after
  finds more, and \<open>remainingVulnerabilities\<close> is the total of the audit after.
\<close>

theorem runAuditFix_fixed_count:
  assumes "runAuditFix s forced w = (r, w')"
    and "AuditFixResult.success r"
  shows "\<exists>before w1 res w2 out after.
           runAudit s w = (before, w1) \<and>
           execSync s (''npm audit fix'' @ (if forced then '' --force'' else '''')) w1 = (res, w2) \<and>
           captured res = Some out \<and>
           runAudit s w2 = (after, w') \<and>
           fixedVulnerabilities r =
             max 0 (int (AuditResult.total before) - int (AuditResult.total after)) \<and>
           0 \<le> fixedVulnerabilities r \<and>
           (AuditResult.total before < AuditResult.total after \<longrightarrow> fixedVulnerabilities r = 0) \<and>
           remainingVulnerabilities r = AuditResult.total after"
proof -
  obtain before w1 where b: "runAudit s w = (before, w1)" by (cases "runAudit s w")
  obtain res w2 where e:
    "execSync s (''npm audit fix'' @ (if forced then '' --force'' else '''')) w1 = (res, w2)"
    by (cases "execSync s (''npm audit fix'' @ (if forced then '' --force'' else '''')) w1")
  obtain after w3 where a: "runAudit s w2 = (after, w3)" by (cases "runAudit s w2")
  show ?thesis
  proof (cases "captured res")
    case None
    with assms b e have False
      by (auto simp: runAuditFix_def fix_failed_def Let_def captured_def split: sum.splits)
    then show ?thesis ..
  next
    case (Some out)
    with assms(1) b e a have "r = fst (fix_report s before out w2)" and "w' = w3"
      by (auto simp: runAuditFix_def captured_def fix_report_def split: sum.splits)
    with a b e Some show ?thesis
      by (auto simp: fix_report_def)
  qed
qed

text \<open>
  The theorem at work: no finding before the fix, three after it.
\<close>

theorem runAuditFix_fixed_count_witness:
  "runAuditFix (audit_sys (\<lambda>w. if w = 0 then ''clean'' else ''drift'')
                 (Inr ''added 2, removed 1, changed 5 packages'')) False 0 =
     (\<lparr>AuditFixResult.success = True, added = 2, removed = 1, changed = 5,
       fixedVulnerabilities = 0, remainingVulnerabilities = 3,
       AuditFixResult.error = None\<rparr>, 3) \<and>
   (\<exists>beforeAudit w1 res w2 out afterAudit.
      runAudit (audit_sys (\<lambda>w. if w = 0 then ''clean'' else ''drift'')
                 (Inr ''added 2, removed 1, changed 5 packages'')) 0 = (beforeAudit, w1) \<and>
      runAudit (audit_sys (\<lambda>w. if w = 0 then ''clean'' else ''drift'')
                 (Inr ''added 2, removed 1, changed 5 packages'')) w2 = (afterAudit, 3) \<and>
      (0 :: int) = max 0 (int (AuditResult.total beforeAudit) - int (AuditResult.total afterAudit)) \<and>
      3 = AuditResult.total afterAudit)"
proof -
  let ?s = "audit_sys (\<lambda>w. if w = 0 then ''clean'' else ''drift'')
                 (Inr ''added 2, removed 1, changed 5 packages'')"
  let ?r = "\<lparr>AuditFixResult.success = True, added = 2, removed = 1, changed = 5,
       fixedVulnerabilities = 0, remainingVulnerabilities = 3,
       AuditFixResult.error = None\<rparr>"
  have h1: "runAuditFix ?s False 0 = (?r, 3)"
    by code_simp
  have h2: "AuditFixResult.success ?r"
    by simp
  from runAuditFix_fixed_count [OF h1 h2] h1 show ?thesis
    by (simp del: max.absorb1 max.absorb2 max.absorb3 max.absorb4) blast
qed

section \<open>The outdated normalizer: order and kind\<close>

lemma filter_partition_sorted:
  assumes "sorted_wrt le ps"
    and "\<And>a b. a \<in> set ps \<Longrightarrow> b \<in> set ps \<Longrightarrow> le a b \<Longrightarrow> P b \<Longrightarrow> P a"
  shows "ps = filter P ps @ filter (\<lambda>p. \<not> P p) ps"
  using assms
proof (induction ps)
  case Nil
  then show ?case by simp
next
  case (Cons x xs)
  then have IH: "xs = filter P xs @ filter (\<lambda>p. \<not> P p) xs" by auto
  show ?case
  proof (cases "P x")
    case True
    with IH show ?thesis by simp
  next
    case False
    have "\<forall>y \<in> set xs. \<not> P y"
    proof
      fix y assume y: "y \<in> set xs"
      with Cons.prems(1) have "le x y" by simp
      with Cons.prems(2) [of x y] y False show "\<not> P y" by auto
    qed
    then have "filter P xs = []" and "filter (\<lambda>p. \<not> P p) xs = xs"
      by (auto simp: filter_empty_conv filter_id_conv)
    with False show ?thesis by simp
  qed
qed

lemma js_le_outdated:
  "js_le (outdated_cmp lc) a b \<longleftrightarrow>
     (if type a \<noteq> type b then type a = Dependencies
      else lc (OutdatedPackage.name a) (OutdatedPackage.name b) \<le> 0)"
  by (simp add: js_le_def outdated_cmp_def)

lemma dep_type_cases: "t \<noteq> Dependencies \<longleftrightarrow> t = DevDependencies"
  by (cases t) auto

lemma sorted_outdated:
  assumes total: "\<forall>a b. lc a b \<le> 0 \<or> lc b a \<le> 0"
    and trans: "\<forall>a b c. lc a b \<le> 0 \<and> lc b c \<le> 0 \<longrightarrow> lc a c \<le> 0"
  shows "sorted_wrt (js_le (outdated_cmp lc)) (js_sort (outdated_cmp lc) ps)"
proof (rule sorted_wrt_js_sort)
  fix a b :: OutdatedPackage
  from total have "lc (OutdatedPackage.name a) (OutdatedPackage.name b) \<le> 0 \<or>
                   lc (OutdatedPackage.name b) (OutdatedPackage.name a) \<le> 0"
    by blast
  then show "js_le (outdated_cmp lc) a b \<or> js_le (outdated_cmp lc) b a"
    by (cases "type a"; cases "type b") (simp_all add: js_le_outdated)
next
  fix a b c :: OutdatedPackage
  assume ab: "js_le (outdated_cmp lc) a b" and bc: "js_le (outdated_cmp lc) b c"
  show "js_le (outdated_cmp lc) a c"
  proof (cases "type a = type b")
    case same_ab: True
    show ?thesis
    proof (cases "type b = type c")
      case True
      with same_ab ab bc
      have "lc (OutdatedPackage.name a) (OutdatedPackage.name b) \<le> 0"
        and "lc (OutdatedPackage.name b) (OutdatedPackage.name c) \<le> 0"
        by (simp_all add: js_le_outdated)
      with trans have "lc (OutdatedPackage.name a) (OutdatedPackage.name c) \<le> 0"
        by blast
      with same_ab True show ?thesis by (simp add: js_le_outdated)
    next
      case False
      with bc have "type b = Dependencies" by (simp add: js_le_outdated)
      with same_ab False show ?thesis by (simp add: js_le_outdated)
    qed
  next
    case False
    with ab have a: "type a = Dependencies" by (simp add: js_le_outdated)
    show ?thesis
    proof (cases "type a = type c")
      case True
      with False have "type b \<noteq> type c" by simp
      with bc have "type b = Dependencies" by (simp add: js_le_outdated)
      with a False show ?thesis by simp
    next
      case False
      with a show ?thesis by (simp add: js_le_outdated)
    qed
  qed
qed

lemma outdated_order:
  assumes total: "\<forall>a b. lc a b \<le> 0 \<or> lc b a \<le> 0"
    and trans: "\<forall>a b c. lc a b \<le> 0 \<and> lc b c \<le> 0 \<longrightarrow> lc a c \<le> 0"
    and ps: "ps = js_sort (outdated_cmp lc) qs"
  shows "ps = filter (\<lambda>p. type p = Dependencies) ps @ filter (\<lambda>p. type p = DevDependencies) ps"
    and "sorted_wrt (\<lambda>a b. lc (OutdatedPackage.name a) (OutdatedPackage.name b) \<le> 0)
           (filter (\<lambda>p. type p = t) ps)"
proof -
  have sorted: "sorted_wrt (js_le (outdated_cmp lc)) ps"
    unfolding ps by (rule sorted_outdated [OF total trans])
  have "ps = filter (\<lambda>p. type p = Dependencies) ps @ filter (\<lambda>p. \<not> type p = Dependencies) ps"
    by (rule filter_partition_sorted [OF sorted]) (auto simp: js_le_outdated split: if_splits)
  then show "ps = filter (\<lambda>p. type p = Dependencies) ps @ filter (\<lambda>p. type p = DevDependencies) ps"
    by (simp add: dep_type_cases)
  from sorted have "sorted_wrt (js_le (outdated_cmp lc)) (filter (\<lambda>p. type p = t) ps)"
    by (rule sorted_wrt_filter)
  then show "sorted_wrt (\<lambda>a b. lc (OutdatedPackage.name a) (OutdatedPackage.name b) \<le> 0)
           (filter (\<lambda>p. type p = t) ps)"
    by (rule sorted_wrt_mono_rel [rotated]) (auto simp: js_le_outdated)
qed

lemma getOutdated_cases:
  "fst (getOutdated s w) = emptyOutdated \<or>
   (\<exists>pkgJson entries.
      readPackageJson s w = Inr pkgJson \<and>
      fst (getOutdated s w) =
        \<lparr>packages = js_sort (outdated_cmp (localeCompare s))
                      (map (\<lambda>(nm, pkg). toOutdatedPackage (has_key (devDependencies pkgJson)) nm pkg)
                         entries),
         total = length entries\<rparr>)"
  by (auto simp: getOutdated_def Let_def length_js_sort
           split: sum.splits prod.splits option.splits)

lemma type_toOutdatedPackage:
  "type (toOutdatedPackage devDeps nm pkg) = DevDependencies \<longleftrightarrow> devDeps nm"
  by (simp add: toOutdatedPackage_def)

lemma name_toOutdatedPackage:
  "OutdatedPackage.name (toOutdatedPackage devDeps nm pkg) = nm"
  by (simp add: toOutdatedPackage_def)

lemma has_key_dom: "has_key obj nm \<longleftrightarrow> (\<exists>d. obj = Some d \<and> nm \<in> dom d)"
  by (auto simp: has_key_def split: option.splits)

text \<open>
  C7.  Provided the collation of the host is a total preorder of the names, the list
  that \<open>getOutdated\<close> returns is its entries of type dependencies followed by its
  entries of type devDependencies, each of the two in the order of the collation; and an
  entry has type devDependencies exactly when its name is a key of the
  \<open>devDependencies\<close> of the manifest, whatever the version-check tool reports for it.
\<close>

theorem getOutdated_order:
  assumes total: "\<forall>a b. localeCompare s a b \<le> 0 \<or> localeCompare s b a \<le> 0"
    and trans: "\<forall>a b c. localeCompare s a b \<le> 0 \<and> localeCompare s b c \<le> 0
                  \<longrightarrow> localeCompare s a c \<le> 0"
  shows "let ps = packages (fst (getOutdated s w))
         in ps = filter (\<lambda>p. type p = Dependencies) ps
                 @ filter (\<lambda>p. type p = DevDependencies) ps \<and>
            sorted_wrt (\<lambda>a b. localeCompare s (OutdatedPackage.name a) (OutdatedPackage.name b) \<le> 0)
              (filter (\<lambda>p. type p = Dependencies) ps) \<and>
            sorted_wrt (\<lambda>a b. localeCompare s (OutdatedPackage.name a) (OutdatedPackage.name b) \<le> 0)
              (filter (\<lambda>p. type p = DevDependencies) ps) \<and>
            (\<forall>pkgJson. readPackageJson s w = Inr pkgJson \<longrightarrow>
               (\<forall>p \<in> set ps.
                  type p = DevDependencies \<longleftrightarrow>
                  (\<exists>d. devDependencies pkgJson = Some d \<and> OutdatedPackage.name p \<in> dom d)))"
proof -
  let ?ps = "packages (fst (getOutdated s w))"
  from getOutdated_cases [of s w]
  have "?ps = filter (\<lambda>p. type p = Dependencies) ?ps
                 @ filter (\<lambda>p. type p = DevDependencies) ?ps \<and>
        (\<forall>t. sorted_wrt (\<lambda>a b. localeCompare s (OutdatedPackage.name a) (OutdatedPackage.name b) \<le> 0)
              (filter (\<lambda>p. type p = t) ?ps)) \<and>
        (\<forall>pkgJson. readPackageJson s w = Inr pkgJson \<longrightarrow>
               (\<forall>p \<in> set ?ps.
                  type p = DevDependencies \<longleftrightarrow>
                  (\<exists>d. devDependencies pkgJson = Some d \<and> OutdatedPackage.name p \<in> dom d)))"
  proof (elim disjE exE conjE)
    assume "fst (getOutdated s w) = emptyOutdated"
    then show ?thesis by (simp add: emptyOutdated_def)
  next
    fix pkgJson :: PackageJson and entries :: "(string \<times> outdated_info) list"
    let ?qs = "map (\<lambda>(nm, pkg). toOutdatedPackage (has_key (devDependencies pkgJson)) nm pkg) entries"
    assume read: "readPackageJson s w = Inr pkgJson"
      and run: "fst (getOutdated s w) =
        \<lparr>packages = js_sort (outdated_cmp (localeCompare s)) ?qs, total = length entries\<rparr>"
    then have ps: "?ps = js_sort (outdated_cmp (localeCompare s)) ?qs" by simp
    note order = outdated_order [OF total trans ps]
    have kind: "\<forall>p \<in> set ?ps.
                  type p = DevDependencies \<longleftrightarrow>
                  (\<exists>d. devDependencies pkgJson = Some d \<and> OutdatedPackage.name p \<in> dom d)"
      unfolding ps set_js_sort
      by (auto simp: type_toOutdatedPackage name_toOutdatedPackage has_key_dom)
    from order kind read show ?thesis by auto
  qed
  then show ?thesis unfolding Let_def by blast
qed

lemma compare_strings_le: "compare_strings a b \<le> 0 \<longleftrightarrow> a \<le> b"
  by (auto simp: compare_strings_def)

text \<open>
  The theorem at work, with the order of the code units as collation: the tool reports
  vitest, lodash and express; the manifest declares vitest for development.
\<close>

theorem getOutdated_order_witness:
  "(\<forall>a b. localeCompare outdated_sys a b \<le> 0 \<or> localeCompare outdated_sys b a \<le> 0) \<and>
   map OutdatedPackage.name (packages (fst (getOutdated outdated_sys 0))) =
     [''express'', ''lodash'', ''vitest''] \<and>
   map type (packages (fst (getOutdated outdated_sys 0))) =
     [Dependencies, Dependencies, DevDependencies] \<and>
   packages (fst (getOutdated outdated_sys 0)) =
     filter (\<lambda>p. type p = Dependencies) (packages (fst (getOutdated outdated_sys 0)))
     @ filter (\<lambda>p. type p = DevDependencies) (packages (fst (getOutdated outdated_sys 0))) \<and>
   sorted_wrt (\<lambda>a b. localeCompare outdated_sys (OutdatedPackage.name a) (OutdatedPackage.name b) \<le> 0)
     (filter (\<lambda>p. type p = Dependencies) (packages (fst (getOutdated outdated_sys 0))))"
proof -
  have lc: "localeCompare outdated_sys = compare_strings"
    by (simp add: outdated_sys_def sample_sys_def)
  have total: "\<forall>a b. localeCompare outdated_sys a b \<le> 0 \<or> localeCompare outdated_sys b a \<le> 0"
    unfolding lc compare_strings_le by auto
  have trans: "\<forall>a b c. localeCompare outdated_sys a b \<le> 0 \<and> localeCompare outdated_sys b c \<le> 0
                  \<longrightarrow> localeCompare outdated_sys a c \<le> 0"
    unfolding lc compare_strings_le by auto
  have names: "map OutdatedPackage.name (packages (fst (getOutdated outdated_sys 0))) =
     [''express'', ''lodash'', ''vitest'']"
    by code_simp
  have types: "map type (packages (fst (getOutdated outdated_sys 0))) =
     [Dependencies, Dependencies, DevDependencies]"
    by code_simp
  note order = getOutdated_order [OF total trans, of 0, unfolded Let_def]
  note split = order [THEN conjunct1]
  note direct = order [THEN conjunct2, THEN conjunct1]
  show ?thesis
    by (intro conjI) (rule total, rule names, rule types, rule split, rule direct)
qed

section \<open>The registry fetcher: ages, staleness and batches\<close>

lemma days_lt: "(d :: int) div 86400000 < 30 \<longleftrightarrow> d < 30 * 86400000"
  by arith

lemma months_lt: "(d :: int) div 86400000 div 30 < 12 \<longleftrightarrow> d < 360 * 86400000"
  by arith

lemma months_ge: "30 * 86400000 \<le> (d :: int) \<Longrightarrow> 1 \<le> d div 86400000 div 30"
  by arith

lemma years_ge: "360 * 86400000 \<le> (d :: int) \<Longrightarrow> 1 \<le> d div 86400000 div 30 div 12"
  by arith

text \<open>
  C9.  For a date that parses, with \<open>d\<close> the milliseconds elapsed since it:
  \<open>formatAge\<close> returns "N days ago" (always the plural) when \<open>d\<close> is below 30 days;
  "N month ago" or "N months ago" when \<open>d\<close> is at least 30 days and below 360 days,
  the singular exactly for N = 1; and from 360 days on "Y year ago" or "Y years ago"
  when the months left over are 0, the singular exactly for Y = 1, and "Yy Mm ago"
  otherwise.  A month is 30 days, a year 12 months.
\<close>

theorem formatAge_labels:
  assumes "getTime dateStr = Some thn"
  shows "let d = now - thn;
             day = 1000 * 60 * 60 * 24;
             days = d div day;
             months = days div 30;
             years = months div 12;
             remainingMonths = months mod 12
         in (d < 30 * day \<longrightarrow>
               formatAge getTime now dateStr = show_int days @ '' days ago'') \<and>
            (30 * day \<le> d \<and> d < 360 * day \<longrightarrow>
               formatAge getTime now dateStr =
                 show_int months @ (if months = 1 then '' month ago'' else '' months ago'')) \<and>
            (360 * day \<le> d \<and> remainingMonths = 0 \<longrightarrow>
               formatAge getTime now dateStr =
                 show_int years @ (if years = 1 then '' year ago'' else '' years ago'')) \<and>
            (360 * day \<le> d \<and> remainingMonths \<noteq> 0 \<longrightarrow>
               formatAge getTime now dateStr =
                 show_int years @ ''y '' @ show_int remainingMonths @ ''m ago'')"
proof -
  let ?d = "now - thn"
  have a: "?d < 30 * 86400000 \<longrightarrow>
             formatAge getTime now dateStr = show_int (?d div 86400000) @ '' days ago''"
    using assms days_lt [of ?d] by (simp add: formatAge_def Let_def)
  have b: "30 * 86400000 \<le> ?d \<and> ?d < 360 * 86400000 \<longrightarrow>
             formatAge getTime now dateStr =
               show_int (?d div 86400000 div 30)
               @ (if ?d div 86400000 div 30 = 1 then '' month ago'' else '' months ago'')"
    using assms days_lt [of ?d] months_lt [of ?d] months_ge [of ?d]
    by (auto simp: formatAge_def Let_def)
  have c: "360 * 86400000 \<le> ?d \<and> ?d div 86400000 div 30 mod 12 = 0 \<longrightarrow>
             formatAge getTime now dateStr =
               show_int (?d div 86400000 div 30 div 12)
               @ (if ?d div 86400000 div 30 div 12 = 1 then '' year ago'' else '' years ago'')"
    using assms days_lt [of ?d] months_lt [of ?d] years_ge [of ?d]
    by (auto simp: formatAge_def Let_def)
  have e: "360 * 86400000 \<le> ?d \<and> ?d div 86400000 div 30 mod 12 \<noteq> 0 \<longrightarrow>
             formatAge getTime now dateStr =
               show_int (?d div 86400000 div 30 div 12) @ ''y ''
               @ show_int (?d div 86400000 div 30 mod 12) @ ''m ago''"
    using assms days_lt [of ?d] months_lt [of ?d]
    by (auto simp: formatAge_def Let_def)
  from a b c e show ?thesis
    unfolding Let_def by simp
qed

text \<open>
  The theorem at work: 36 days, which is one month.
\<close>

theorem formatAge_labels_witness:
  "sample_getTime ''2026-01-10T00:00:00Z'' = Some 1768003200000 \<and>
   30 * (1000 * 60 * 60 * 24) \<le> sample_now - 1768003200000 \<and>
   sample_now - 1768003200000 < 360 * (1000 * 60 * 60 * 24) \<and>
   (sample_now - 1768003200000) div (1000 * 60 * 60 * 24) div 30 = 1 \<and>
   formatAge sample_getTime sample_now ''2026-01-10T00:00:00Z'' = ''1 month ago''"
proof -
  have parsed: "sample_getTime ''2026-01-10T00:00:00Z'' = Some 1768003200000"
    by (simp add: sample_getTime_def)
  have range: "30 * (1000 * 60 * 60 * 24) \<le> sample_now - 1768003200000 \<and>
     sample_now - 1768003200000 < 360 * (1000 * 60 * 60 * 24)"
    by (simp add: sample_now_def)
  have months: "(sample_now - 1768003200000) div (1000 * 60 * 60 * 24) div 30 = 1"
    by (simp add: sample_now_def)
  have one: "show_int 1 = ''1''"
    by code_simp
  note labels = formatAge_labels [of sample_getTime "''2026-01-10T00:00:00Z''" 1768003200000
      sample_now, OF parsed, unfolded Let_def]
  from labels [THEN conjunct2, THEN conjunct1, THEN mp, OF range]
  have "formatAge sample_getTime sample_now ''2026-01-10T00:00:00Z'' = ''1 month ago''"
    unfolding months one by simp
  with parsed range months show ?thesis by simp
qed

text \<open>The seven dates of the repository's tests, seen from 2026-02-15, and a string that is no date.\<close>

lemma formatAge_examples:
  "map (formatAge sample_getTime sample_now)
     [''2026-02-10T00:00:00Z'', ''2026-02-15T00:00:00Z'', ''2025-11-15T00:00:00Z'',
      ''2026-01-10T00:00:00Z'', ''2024-02-15T00:00:00Z'', ''2023-08-15T00:00:00Z'',
      ''2025-02-15T00:00:00Z'', ''not a date''] =
     [''5 days ago'', ''0 days ago'', ''3 months ago'', ''1 month ago'', ''2 years ago'',
      ''2y 6m ago'', ''1 year ago'', ''NaNy NaNm ago'']"
  by code_simp

lemma getPackageMetadata_Some:
  "getPackageMetadata getTime env packageName = Some m \<Longrightarrow>
   \<exists>data. reply env = Response True (Some data) \<and> m = metadata_of getTime env packageName data"
  by (auto simp: getPackageMetadata_def split: fetch_result.splits option.splits if_splits)

text \<open>
  C8.  In every record that \<open>getPackageMetadata\<close> returns, \<open>isStale\<close> holds exactly
  when \<open>lastPublishDate\<close> is not empty and the time elapsed since it is more than 730
  days of milliseconds; at exactly 730 days it does not hold; and an empty
  \<open>lastPublishDate\<close> gives the age "unknown" and \<open>isStale = false\<close>.
\<close>

theorem getPackageMetadata_stale:
  assumes "getPackageMetadata getTime env packageName = Some m"
  shows "STALE_THRESHOLD_MS = 730 * (24 * 60 * 60 * 1000) \<and>
         (isStale m \<longleftrightarrow>
            lastPublishDate m \<noteq> '''' \<and>
            (\<exists>thn. getTime (lastPublishDate m) = Some thn \<and>
                   now_isStale env - thn > 730 * (24 * 60 * 60 * 1000))) \<and>
         (\<forall>thn. getTime (lastPublishDate m) = Some thn \<and>
                now_isStale env - thn = 730 * (24 * 60 * 60 * 1000) \<longrightarrow> \<not> isStale m) \<and>
         (lastPublishDate m = '''' \<longrightarrow> lastPublishAge m = ''unknown'' \<and> \<not> isStale m)"
proof -
  from getPackageMetadata_Some [OF assms] obtain data
    where m: "m = metadata_of getTime env packageName data" by blast
  have threshold: "STALE_THRESHOLD_MS = 730 * (24 * 60 * 60 * 1000)"
    by (simp add: STALE_THRESHOLD_MS_def)
  have stale: "isStale m \<longleftrightarrow>
            lastPublishDate m \<noteq> '''' \<and>
            (\<exists>thn. getTime (lastPublishDate m) = Some thn \<and>
                   now_isStale env - thn > STALE_THRESHOLD_MS)"
    unfolding m by (auto simp: metadata_of_def Let_def split: option.splits)
  have unknown: "lastPublishDate m = '''' \<longrightarrow> lastPublishAge m = ''unknown'' \<and> \<not> isStale m"
    unfolding m by (simp add: metadata_of_def Let_def)
  from stale have boundary: "\<forall>thn. getTime (lastPublishDate m) = Some thn \<and>
                now_isStale env - thn = STALE_THRESHOLD_MS \<longrightarrow> \<not> isStale m"
    by auto
  from threshold stale boundary unknown show ?thesis
    by (simp only: threshold)
qed

text \<open>
  The theorem at work: a version published exactly 730 days ago is not stale, one
  published 731 days ago is.
\<close>

theorem getPackageMetadata_stale_witness:
  "getPackageMetadata sample_getTime
     (sample_env (Response True (Some (sample_doc ''2024-02-16T00:00:00Z'')))) ''left-pad'' =
     Some \<lparr>RegistryMetadata.name = ''left-pad'', deprecated = None,
            lastPublishDate = ''2024-02-16T00:00:00Z'', lastPublishAge = ''2 years ago'',
            isStale = False\<rparr> \<and>
   sample_getTime ''2024-02-16T00:00:00Z'' = Some 1708041600000 \<and>
   now_isStale (sample_env (Response True (Some (sample_doc ''2024-02-16T00:00:00Z''))))
     - 1708041600000 = 730 * (24 * 60 * 60 * 1000) \<and>
   isStale (the (getPackageMetadata sample_getTime
     (sample_env (Response True (Some (sample_doc ''2024-02-15T00:00:00Z'')))) ''left-pad''))"
proof -
  let ?env = "sample_env (Response True (Some (sample_doc ''2024-02-16T00:00:00Z'')))"
  let ?m = "\<lparr>RegistryMetadata.name = ''left-pad'', deprecated = None,
            lastPublishDate = ''2024-02-16T00:00:00Z'', lastPublishAge = ''2 years ago'',
            isStale = False\<rparr>"
  have run: "getPackageMetadata sample_getTime ?env ''left-pad'' = Some ?m"
    by code_simp
  have parsed: "sample_getTime ''2024-02-16T00:00:00Z'' = Some 1708041600000"
    by (simp add: sample_getTime_def)
  have elapsed: "now_isStale ?env - 1708041600000 = 730 * (24 * 60 * 60 * 1000)"
    by (simp add: sample_env_def sample_now_def)
  have later: "isStale (the (getPackageMetadata sample_getTime
     (sample_env (Response True (Some (sample_doc ''2024-02-15T00:00:00Z'')))) ''left-pad''))"
    by code_simp
  note stale = getPackageMetadata_stale [OF run]
  from stale have "\<not> isStale ?m" by simp
  with run parsed elapsed later show ?thesis by simp
qed

lemma name_getPackageMetadata:
  "getPackageMetadata getTime env nm = Some m \<Longrightarrow> RegistryMetadata.name m = nm"
  by (auto simp: metadata_of_def Let_def dest!: getPackageMetadata_Some)

lemma map_filter_append:
  "List.map_filter f (xs @ ys) = List.map_filter f xs @ List.map_filter f ys"
  by (simp add: List.map_filter_def)

lemma metadata_loop_eq:
  "metadata_loop getTime envs names i results =
     results @ List.map_filter (\<lambda>(k, nm). getPackageMetadata getTime (envs k) nm)
                 (enumerate i (drop i names))"
proof (induction getTime envs names i results rule: metadata_loop.induct)
  case (1 getTime envs names i results)
  let ?f = "\<lambda>(k, nm). getPackageMetadata getTime (envs k) nm"
  show ?case
  proof (cases "i < length names")
    case False
    then show ?thesis by (subst metadata_loop.simps) (simp add: map_filter_simps)
  next
    case True
    let ?batch = "take batchSize (drop i names)"
    have out: "map the (filter (\<lambda>r. r \<noteq> None) (map ?f (enumerate i ?batch))) =
               List.map_filter ?f (enumerate i ?batch)"
      by (simp add: List.map_filter_def filter_map comp_def)
    have split: "drop i names = ?batch @ drop (i + batchSize) names"
      by (metis add.commute append_take_drop_id drop_drop)
    have rest: "enumerate (i + length ?batch) (drop (i + batchSize) names) =
                enumerate (i + batchSize) (drop (i + batchSize) names)"
    proof (cases "batchSize \<le> length names - i")
      case True
      then show ?thesis by simp
    next
      case False
      then have "drop (i + batchSize) names = []" by simp
      then show ?thesis by simp
    qed
    have "List.map_filter ?f (enumerate i (drop i names)) =
          List.map_filter ?f (enumerate i ?batch)
          @ List.map_filter ?f (enumerate (i + batchSize) (drop (i + batchSize) names))"
      by (subst split) (simp only: enumerate_append_eq map_filter_append rest)
    with True out 1 [OF True refl refl] show ?thesis
      by (subst metadata_loop.simps) (simp add: Let_def)
  qed
qed

lemma subseq_map_filter_enumerate:
  "subseq (map RegistryMetadata.name
             (List.map_filter (\<lambda>(k, nm). getPackageMetadata getTime (envs k) nm) (enumerate i names)))
     names"
proof (induction names arbitrary: i)
  case Nil
  then show ?case by (simp add: map_filter_simps)
next
  case (Cons nm names)
  let ?rest = "map RegistryMetadata.name
             (List.map_filter (\<lambda>(k, nm). getPackageMetadata getTime (envs k) nm)
                (enumerate (Suc i) names))"
  have IH: "subseq ?rest names" by (rule Cons)
  show ?case
  proof (cases "getPackageMetadata getTime (envs i) nm")
    case None
    from IH have "subseq ?rest (nm # names)" by (rule list_emb_Cons)
    with None show ?thesis by (simp add: map_filter_simps)
  next
    case (Some m)
    with name_getPackageMetadata have "RegistryMetadata.name m = nm" by blast
    moreover from IH have "subseq (nm # ?rest) (nm # names)" by simp
    ultimately show ?thesis using Some by (simp add: map_filter_simps)
  qed
qed

lemma length_map_filter: "length (List.map_filter f xs) \<le> length xs"
  by (simp add: List.map_filter_def)

text \<open>
  C10.  \<open>getMultiplePackageMetadata\<close> returns the metadata of the names whose lookup
  succeeded, in the order of the input: the names of the result are a subsequence of the
  input, and the result is no longer than the input.
\<close>

theorem getMultiplePackageMetadata_order:
  "getMultiplePackageMetadata getTime envs names =
     List.map_filter (\<lambda>(k, nm). getPackageMetadata getTime (envs k) nm) (enumerate 0 names) \<and>
   subseq (map RegistryMetadata.name (getMultiplePackageMetadata getTime envs names)) names \<and>
   length (getMultiplePackageMetadata getTime envs names) \<le> length names"
proof -
  have eq: "getMultiplePackageMetadata getTime envs names =
     List.map_filter (\<lambda>(k, nm). getPackageMetadata getTime (envs k) nm) (enumerate 0 names)"
    by (simp add: getMultiplePackageMetadata_def metadata_loop_eq)
  moreover have "subseq (map RegistryMetadata.name (getMultiplePackageMetadata getTime envs names)) names"
    unfolding eq by (rule subseq_map_filter_enumerate)
  moreover have "length (getMultiplePackageMetadata getTime envs names) \<le> length names"
    unfolding eq using length_map_filter [of _ "enumerate 0 names"] by simp
  ultimately show ?thesis by blast
qed

lemma getMultiplePackageMetadata_example:
  "map RegistryMetadata.name
     (getMultiplePackageMetadata sample_getTime flaky_envs
        [''a'', ''b'', ''c'', ''d'', ''e'', ''f'', ''g'', ''h'', ''i'', ''j'', ''k'', ''l'', ''m'']) =
     [''c'', ''d'', ''g'', ''i'', ''j'', ''l'', ''m'']"
  by code_simp

end
